theory Spec2Isabelle
  imports Main "HOL-Library.AList" "HOL-Library.Word"
begin

chapter \<open>The model\<close>

section \<open>JavaScript strings\<close>

text \<open>
  A JavaScript string is modelled by the list of its UTF-8 bytes, which is what
  \<^verbatim>\<open>Buffer.from(s)\<close> yields and what the code compares.  Every string the
  functions below search for is ASCII, where bytes and UTF-16 code units coincide.
\<close>

text \<open>\<^verbatim>\<open>s.startsWith(p)\<close>.\<close>

fun startsWith :: "string \<Rightarrow> string \<Rightarrow> bool" where
  "startsWith s [] = True"
| "startsWith [] (p # ps) = False"
| "startsWith (c # cs) (p # ps) = (c = p \<and> startsWith cs ps)"

text \<open>\<^verbatim>\<open>s.includes(p)\<close>: \<open>p\<close> occurs in \<open>s\<close> as a contiguous substring.\<close>

fun includesStr :: "string \<Rightarrow> string \<Rightarrow> bool" where
  "includesStr [] p = (p = [])"
| "includesStr (c # cs) p = (startsWith (c # cs) p \<or> includesStr cs p)"

section \<open>Token scopes\<close>

text \<open>The enum \<^verbatim>\<open>TokenScope\<close>; each member carries a string value.\<close>

datatype TokenScope =
    CHAT_READ | CHAT_WRITE | COMPLETIONS_READ | COMPLETIONS_WRITE
  | EMBEDDINGS_READ | EMBEDDINGS_WRITE
  | IMAGES_READ | IMAGES_WRITE | IMAGES_EDIT
  | AUDIO_TRANSCRIBE | AUDIO_TRANSLATE | AUDIO_SPEECH
  | MODELS_LIST | MODELS_READ
  | FILES_READ | FILES_WRITE | FILES_DELETE
  | FINETUNE_READ | FINETUNE_WRITE | FINETUNE_DELETE
  | ASSISTANTS_READ | ASSISTANTS_WRITE | ASSISTANTS_DELETE
  | SCOPE_ALL

fun scopeValue :: "TokenScope \<Rightarrow> string" where
  "scopeValue CHAT_READ = ''chat:read''"
| "scopeValue CHAT_WRITE = ''chat:write''"
| "scopeValue COMPLETIONS_READ = ''completions:read''"
| "scopeValue COMPLETIONS_WRITE = ''completions:write''"
| "scopeValue EMBEDDINGS_READ = ''embeddings:read''"
| "scopeValue EMBEDDINGS_WRITE = ''embeddings:write''"
| "scopeValue IMAGES_READ = ''images:read''"
| "scopeValue IMAGES_WRITE = ''images:write''"
| "scopeValue IMAGES_EDIT = ''images:edit''"
| "scopeValue AUDIO_TRANSCRIBE = ''audio:transcribe''"
| "scopeValue AUDIO_TRANSLATE = ''audio:translate''"
| "scopeValue AUDIO_SPEECH = ''audio:speech''"
| "scopeValue MODELS_LIST = ''models:list''"
| "scopeValue MODELS_READ = ''models:read''"
| "scopeValue FILES_READ = ''files:read''"
| "scopeValue FILES_WRITE = ''files:write''"
| "scopeValue FILES_DELETE = ''files:delete''"
| "scopeValue FINETUNE_READ = ''finetune:read''"
| "scopeValue FINETUNE_WRITE = ''finetune:write''"
| "scopeValue FINETUNE_DELETE = ''finetune:delete''"
| "scopeValue ASSISTANTS_READ = ''assistants:read''"
| "scopeValue ASSISTANTS_WRITE = ''assistants:write''"
| "scopeValue ASSISTANTS_DELETE = ''assistants:delete''"
| "scopeValue SCOPE_ALL = ''*''"

text \<open>
  The table \<^verbatim>\<open>EndpointScopes\<close>.  \<^verbatim>\<open>Object.entries\<close> walks it in the
  order the keys are written, so it is an association list.
\<close>

definition EndpointScopes :: "(string \<times> TokenScope list) list" where
  "EndpointScopes =
    [(''v1/chat/completions'', [CHAT_WRITE, SCOPE_ALL]),
     (''v1/completions'', [COMPLETIONS_WRITE, SCOPE_ALL]),
     (''v1/embeddings'', [EMBEDDINGS_WRITE, SCOPE_ALL]),
     (''v1/images/generations'', [IMAGES_WRITE, SCOPE_ALL]),
     (''v1/images/edits'', [IMAGES_EDIT, SCOPE_ALL]),
     (''v1/images/variations'', [IMAGES_WRITE, SCOPE_ALL]),
     (''v1/audio/transcriptions'', [AUDIO_TRANSCRIBE, SCOPE_ALL]),
     (''v1/audio/translations'', [AUDIO_TRANSLATE, SCOPE_ALL]),
     (''v1/audio/speech'', [AUDIO_SPEECH, SCOPE_ALL]),
     (''v1/models'', [MODELS_LIST, MODELS_READ, SCOPE_ALL]),
     (''v1/files'', [FILES_READ, FILES_WRITE, SCOPE_ALL]),
     (''v1/fine_tuning/jobs'', [FINETUNE_READ, FINETUNE_WRITE, SCOPE_ALL]),
     (''v1/assistants'', [ASSISTANTS_READ, ASSISTANTS_WRITE, SCOPE_ALL]),
     (''v1/messages'', [CHAT_WRITE, SCOPE_ALL]),
     (''v1/complete'', [COMPLETIONS_WRITE, SCOPE_ALL])]"

text \<open>
  \<^verbatim>\<open>endpoint.replace(/^\//, "").split("?")[0]\<close>: one leading slash is dropped,
  then everything from the first question mark on.
\<close>

definition normalizeEndpoint :: "string \<Rightarrow> string" where
  "normalizeEndpoint endpoint =
    takeWhile (\<lambda>c. c \<noteq> CHR ''?'')
      (case endpoint of [] \<Rightarrow> [] | c # cs \<Rightarrow> if c = CHR ''/'' then cs else c # cs)"

text \<open>
  The \<^verbatim>\<open>for\<close> loop of \<^verbatim>\<open>hasRequiredScope\<close>: the scopes of the first
  table row whose pattern the endpoint starts with or contains, the empty list when
  the loop ends without a \<^verbatim>\<open>break\<close>.
\<close>

fun findRequiredScopes :: "(string \<times> TokenScope list) list \<Rightarrow> string \<Rightarrow> TokenScope list" where
  "findRequiredScopes [] e = []"
| "findRequiredScopes ((pattern, scopes) # rest) e =
    (if startsWith e pattern \<or> includesStr e pattern then scopes
     else findRequiredScopes rest e)"

record ScopeCheck =
  allowed :: bool
  requiredScopes :: "TokenScope list"
  missingScopes :: "TokenScope list"

definition hasRequiredScope :: "string list \<Rightarrow> string \<Rightarrow> string \<Rightarrow> ScopeCheck" where
  "hasRequiredScope tokenScopes endpoint method =
    (let normalizedEndpoint = normalizeEndpoint endpoint;
         required = findRequiredScopes EndpointScopes normalizedEndpoint
     in if length required = 0
        then \<lparr>allowed = True, requiredScopes = [], missingScopes = []\<rparr>
        else if scopeValue SCOPE_ALL \<in> set tokenScopes
        then \<lparr>allowed = True, requiredScopes = required, missingScopes = []\<rparr>
        else let hasMatchingScope = list_ex (\<lambda>scope. scopeValue scope \<in> set tokenScopes) required
             in \<lparr>allowed = hasMatchingScope,
                 requiredScopes = required,
                 missingScopes = (if hasMatchingScope then []
                                  else filter (\<lambda>s. s \<noteq> SCOPE_ALL) required)\<rparr>)"

section \<open>Numbers as text\<close>

text \<open>
  \<^verbatim>\<open>n.toString()\<close> and a number inside a template string: the decimal digits, a
  minus sign before a negative number.
\<close>

definition digitChar :: "nat \<Rightarrow> char" where
  "digitChar d = ''0123456789'' ! d"

function showNat :: "nat \<Rightarrow> string" where
  "showNat n = (if n < 10 then [digitChar n] else showNat (n div 10) @ [digitChar (n mod 10)])"
  by pat_completeness auto
termination
  by (relation "measure id") auto

declare showNat.simps [simp del]

definition showInt :: "int \<Rightarrow> string" where
  "showInt i = (if i < 0 then CHR ''-'' # showNat (nat (- i)) else showNat (nat i))"

text \<open>
  \<^verbatim>\<open>parseInt(s, 10)\<close>: leading white space is skipped, a sign is read, then the
  longest run of decimal digits; \<open>None\<close> is \<^verbatim>\<open>NaN\<close> (no digit there).
\<close>

definition isDigit :: "char \<Rightarrow> bool" where
  "isDigit c = (48 \<le> (of_char c :: nat) \<and> (of_char c :: nat) \<le> 57)"

definition isSpace :: "char \<Rightarrow> bool" where
  "isSpace c = ((of_char c :: nat) \<in> {9, 10, 11, 12, 13, 32})"

fun digitsValue :: "int \<Rightarrow> string \<Rightarrow> int" where
  "digitsValue acc [] = acc"
| "digitsValue acc (c # cs) = digitsValue (acc * 10 + (int (of_char c) - 48)) cs"

definition parseInt :: "string \<Rightarrow> int option" where
  "parseInt s =
    (let t = dropWhile isSpace s;
         (sign, u) = (case t of [] \<Rightarrow> (1, [])
                      | c # cs \<Rightarrow> if c = CHR ''-'' then (- 1, cs)
                                  else if c = CHR ''+'' then (1, cs) else (1, c # cs));
         ds = takeWhile isDigit u
     in if ds = [] then None else Some (sign * digitsValue 0 ds))"

section \<open>Exceptions\<close>

text \<open>What the code can throw; a function that may throw returns \<open>Exn + 'a\<close>.\<close>

datatype Exn =
    RedisError          \<comment> \<open>a command of the fast store failed\<close>
  | TypeError           \<comment> \<open>a property read of \<^verbatim>\<open>undefined\<close> or \<^verbatim>\<open>null\<close>, a call of a non-function\<close>
  | RangeError          \<comment> \<open>\<^verbatim>\<open>crypto.timingSafeEqual\<close> on buffers of different length\<close>
  | RecordNotFound      \<comment> \<open>Prisma's \<^verbatim>\<open>update\<close> of a row that does not exist\<close>
  | CryptoError         \<comment> \<open>the cipher rejects its input (tag mismatch, bad nonce or tag length)\<close>
  | MissingKeyError     \<comment> \<open>\<^verbatim>\<open>ENCRYPTION_KEY\<close> is not set\<close>
  | NotAuthorizedError  \<comment> \<open>\<^verbatim>\<open>Error("Token not found or unauthorized")\<close>\<close>

section \<open>JSON documents\<close>

text \<open>The value \<^verbatim>\<open>JSON.stringify\<close> serialises, kept as a tree.\<close>

datatype Json =
    JNull | JBool bool | JNum int | JStr string
  | JArr "Json list" | JObj "(string \<times> Json) list"

section \<open>The fast store\<close>

text \<open>
  The Redis client.  A key holds a counter (written by \<^verbatim>\<open>INCR\<close>), a string
  (written by \<^verbatim>\<open>SET\<close>) or a list, and may carry a time to live in seconds.  The
  model records the time to live a command sets; it does not let time pass.  When the
  store is unreachable every command throws.
\<close>

datatype RedisValue = RInt int | RStr string | RList "Json list"

record RedisEntry =
  re_value :: RedisValue
  re_ttl :: "nat option"

record Redis =
  reachable :: bool
  entries :: "(string \<times> RedisEntry) list"

definition redis_lookup :: "Redis \<Rightarrow> string \<Rightarrow> RedisEntry option" where
  "redis_lookup r k = map_of (entries r) k"

definition redis_put :: "string \<Rightarrow> RedisEntry \<Rightarrow> Redis \<Rightarrow> Redis" where
  "redis_put k e r = r\<lparr>entries := AList.update k e (entries r)\<rparr>"

text \<open>\<^verbatim>\<open>INCR\<close>: a missing key counts from 0; the time to live is kept.\<close>

definition redis_incr :: "string \<Rightarrow> Redis \<Rightarrow> Exn + (int \<times> Redis)" where
  "redis_incr k r =
    (if \<not> reachable r then Inl RedisError
     else case redis_lookup r k of
            None \<Rightarrow> Inr (1, redis_put k \<lparr>re_value = RInt 1, re_ttl = None\<rparr> r)
          | Some e \<Rightarrow>
              (case re_value e of
                 RInt n \<Rightarrow> Inr (n + 1, redis_put k (e\<lparr>re_value := RInt (n + 1)\<rparr>) r)
               | RStr s \<Rightarrow> Inl RedisError
               | RList l \<Rightarrow> Inl RedisError))"

text \<open>\<^verbatim>\<open>EXPIRE\<close>: sets the time to live of an existing key.\<close>

definition redis_expire :: "string \<Rightarrow> nat \<Rightarrow> Redis \<Rightarrow> Exn + Redis" where
  "redis_expire k seconds r =
    (if \<not> reachable r then Inl RedisError
     else case redis_lookup r k of
            None \<Rightarrow> Inr r
          | Some e \<Rightarrow> Inr (redis_put k (e\<lparr>re_ttl := Some seconds\<rparr>) r))"

text \<open>\<^verbatim>\<open>GET\<close>: the string at the key, a counter in decimal.\<close>

definition redis_get :: "string \<Rightarrow> Redis \<Rightarrow> Exn + string option" where
  "redis_get k r =
    (if \<not> reachable r then Inl RedisError
     else case redis_lookup r k of
            None \<Rightarrow> Inr None
          | Some e \<Rightarrow>
              (case re_value e of
                 RInt n \<Rightarrow> Inr (Some (showInt n))
               | RStr s \<Rightarrow> Inr (Some s)
               | RList l \<Rightarrow> Inl RedisError))"

text \<open>\<^verbatim>\<open>SET key value EX seconds\<close>.\<close>

definition redis_set_ex :: "string \<Rightarrow> string \<Rightarrow> nat \<Rightarrow> Redis \<Rightarrow> Exn + Redis" where
  "redis_set_ex k v seconds r =
    (if \<not> reachable r then Inl RedisError
     else Inr (redis_put k \<lparr>re_value = RStr v, re_ttl = Some seconds\<rparr> r))"

text \<open>\<^verbatim>\<open>LPUSH\<close>: the item goes to the head of the list, a missing key is the empty list.\<close>

definition redis_lpush :: "string \<Rightarrow> Json \<Rightarrow> Redis \<Rightarrow> Exn + Redis" where
  "redis_lpush k item r =
    (if \<not> reachable r then Inl RedisError
     else case redis_lookup r k of
            None \<Rightarrow> Inr (redis_put k \<lparr>re_value = RList [item], re_ttl = None\<rparr> r)
          | Some e \<Rightarrow>
              (case re_value e of
                 RList l \<Rightarrow> Inr (redis_put k (e\<lparr>re_value := RList (item # l)\<rparr>) r)
               | RInt n \<Rightarrow> Inl RedisError
               | RStr s \<Rightarrow> Inl RedisError))"

definition redis_llen :: "string \<Rightarrow> Redis \<Rightarrow> Exn + int" where
  "redis_llen k r =
    (if \<not> reachable r then Inl RedisError
     else case redis_lookup r k of
            None \<Rightarrow> Inr 0
          | Some e \<Rightarrow>
              (case re_value e of
                 RList l \<Rightarrow> Inr (int (length l))
               | RInt n \<Rightarrow> Inl RedisError
               | RStr s \<Rightarrow> Inl RedisError))"

text \<open>
  \<^verbatim>\<open>KEYS pattern\<close>.  In a pattern \<open>*\<close> stands for any run of characters and
  \<open>?\<close> for one; the bracket and backslash syntax of Redis patterns is not modelled
  (they are read as themselves).
\<close>

function globMatch :: "string \<Rightarrow> string \<Rightarrow> bool" where
  "globMatch [] s = (s = [])"
| "globMatch (p # ps) [] = (p = CHR ''*'' \<and> globMatch ps [])"
| "globMatch (p # ps) (c # cs) =
    (if p = CHR ''*'' then globMatch ps (c # cs) \<or> globMatch (p # ps) cs
     else (p = CHR ''?'' \<or> p = c) \<and> globMatch ps cs)"
  by pat_completeness auto
termination
  by (relation "measure (\<lambda>(p, s). length p + length s)") auto

definition redis_keys :: "string \<Rightarrow> Redis \<Rightarrow> Exn + string list" where
  "redis_keys pattern r =
    (if \<not> reachable r then Inl RedisError
     else Inr (filter (globMatch pattern) (map fst (entries r))))"

definition redis_del :: "string list \<Rightarrow> Redis \<Rightarrow> Exn + Redis" where
  "redis_del ks r =
    (if \<not> reachable r then Inl RedisError
     else Inr (r\<lparr>entries := filter (\<lambda>kv. fst kv \<notin> set ks) (entries r)\<rparr>))"

section \<open>Rate limiter\<close>

record RateLimitResult =
  rl_allowed :: bool
  rl_remaining :: int
  rl_resetAt :: int

text \<open>
  \<^verbatim>\<open>checkRateLimit(key, limit, windowSeconds)\<close>; \<open>now\<close> is
  \<^verbatim>\<open>Math.floor(Date.now() / 1000)\<close>.  Whatever the \<^verbatim>\<open>try\<close> block throws is caught:
  the limiter then lets the request pass.
\<close>

definition windowKey :: "string \<Rightarrow> nat \<Rightarrow> nat \<Rightarrow> string" where
  "windowKey key windowSeconds now =
     ''ratelimit:'' @ key @ '':'' @ showNat (now div windowSeconds)"

definition checkRateLimit ::
  "string \<Rightarrow> int \<Rightarrow> nat \<Rightarrow> nat \<Rightarrow> Redis \<Rightarrow> RateLimitResult \<times> Redis" where
  "checkRateLimit key limit windowSeconds now r =
    (let failOpen = \<lparr>rl_allowed = True, rl_remaining = limit,
                      rl_resetAt = int now + int windowSeconds\<rparr>
     in case redis_incr (windowKey key windowSeconds now) r of
          Inl e \<Rightarrow> (failOpen, r)
        | Inr (current, r1) \<Rightarrow>
            (case (if current = 1 then redis_expire (windowKey key windowSeconds now) windowSeconds r1
                   else Inr r1) of
               Inl e \<Rightarrow> (failOpen, r1)
             | Inr r2 \<Rightarrow>
                 (\<lparr>rl_allowed = (current \<le> limit),
                   rl_remaining = max 0 (limit - current),
                   rl_resetAt = (int (now div windowSeconds) + 1) * int windowSeconds\<rparr>, r2)))"

text \<open>The key \<^verbatim>\<open>handleProxy\<close> hands to the limiter for a shared token.\<close>

definition sharedRateLimitKey :: "string \<Rightarrow> string" where
  "sharedRateLimitKey tokenId = ''shared:'' @ tokenId @ '':minute''"

text \<open>Reading the store: the counter at a key (a missing key counts 0) and its time to live.\<close>

definition counterAt :: "Redis \<Rightarrow> string \<Rightarrow> int option" where
  "counterAt r k =
    (case redis_lookup r k of
       None \<Rightarrow> Some 0
     | Some e \<Rightarrow> (case re_value e of RInt n \<Rightarrow> Some n | RStr s \<Rightarrow> None | RList l \<Rightarrow> None))"

definition ttlAt :: "Redis \<Rightarrow> string \<Rightarrow> nat option" where
  "ttlAt r k = (case redis_lookup r k of None \<Rightarrow> None | Some e \<Rightarrow> re_ttl e)"

section \<open>Buffers and base64\<close>

text \<open>
  A \<^verbatim>\<open>Buffer\<close> is a list of bytes, like a string.  \<^verbatim>\<open>buf.toString("base64")\<close>
  writes three bytes as four characters of the standard alphabet and pads the last
  group with \<open>=\<close>; \<^verbatim>\<open>toString("base64url")\<close> uses \<open>-\<close> and \<open>_\<close> for the last two
  characters of the alphabet and does not pad.
\<close>

definition base64Alphabet :: string where
  "base64Alphabet = ''ABCDEFGHIJKLMNOPQRSTUVWXYZabcdefghijklmnopqrstuvwxyz0123456789+/''"

definition base64urlAlphabet :: string where
  "base64urlAlphabet = ''ABCDEFGHIJKLMNOPQRSTUVWXYZabcdefghijklmnopqrstuvwxyz0123456789-_''"

fun encodeGroups :: "string \<Rightarrow> string \<Rightarrow> string \<Rightarrow> string" where
  "encodeGroups alphabet pad (a # b # c # rest) =
     [alphabet ! (of_char a div 4),
      alphabet ! ((of_char a mod 4) * 16 + of_char b div 16),
      alphabet ! ((of_char b mod 16) * 4 + of_char c div 64),
      alphabet ! (of_char c mod 64)] @ encodeGroups alphabet pad rest"
| "encodeGroups alphabet pad [a, b] =
     [alphabet ! (of_char a div 4),
      alphabet ! ((of_char a mod 4) * 16 + of_char b div 16),
      alphabet ! ((of_char b mod 16) * 4)] @ pad"
| "encodeGroups alphabet pad [a] =
     [alphabet ! (of_char a div 4),
      alphabet ! ((of_char a mod 4) * 16)] @ pad @ pad"
| "encodeGroups alphabet pad [] = []"

definition base64_encode :: "string \<Rightarrow> string" where
  "base64_encode buf = encodeGroups base64Alphabet ''='' buf"

definition base64url_encode :: "string \<Rightarrow> string" where
  "base64url_encode buf = encodeGroups base64urlAlphabet [] buf"

text \<open>
  \<^verbatim>\<open>Buffer.from(s, "base64")\<close>, the decoder of Node: it reads both alphabets, skips
  every character that belongs to neither, stops at the first \<open>=\<close>, and turns the
  six-bit values it has read into bytes, dropping the bits that do not fill a byte.
\<close>

primrec indexOf :: "'a \<Rightarrow> 'a list \<Rightarrow> nat option" where
  "indexOf x [] = None"
| "indexOf x (y # ys) = (if x = y then Some 0 else map_option Suc (indexOf x ys))"

definition unbase64 :: "char \<Rightarrow> nat option" where
  "unbase64 c =
    (if c = CHR ''-'' then Some 62 else if c = CHR ''_'' then Some 63
     else indexOf c base64Alphabet)"

fun decodeGroups :: "nat list \<Rightarrow> string" where
  "decodeGroups (s0 # s1 # s2 # s3 # rest) =
     [char_of (s0 * 4 + s1 div 16),
      char_of ((s1 mod 16) * 16 + s2 div 4),
      char_of ((s2 mod 4) * 64 + s3)] @ decodeGroups rest"
| "decodeGroups [s0, s1, s2] =
     [char_of (s0 * 4 + s1 div 16), char_of ((s1 mod 16) * 16 + s2 div 4)]"
| "decodeGroups [s0, s1] = [char_of (s0 * 4 + s1 div 16)]"
| "decodeGroups [s0] = []"
| "decodeGroups [] = []"

definition sextets :: "string \<Rightarrow> nat list" where
  "sextets s = List.map_filter unbase64 (takeWhile (\<lambda>c. c \<noteq> CHR ''='') s)"

definition base64_decode :: "string \<Rightarrow> string" where
  "base64_decode s = decodeGroups (sextets s)"

section \<open>Crypto primitives\<close>

text \<open>
  The primitives of Node's \<^verbatim>\<open>crypto\<close> module the code calls.  They are parameters
  of the model: SHA-256 and the HMACs as functions to the digest, PBKDF2 as a function
  to the derived key, AES-256-GCM as a pair of functions, sealing a plaintext under a
  key and a nonce into ciphertext and tag, and opening one, \<open>None\<close> when the cipher
  throws (the tag does not verify, or the nonce or the tag has a length it refuses).
\<close>

record CryptoLib =
  sha256hex :: "string \<Rightarrow> string"
  hmacSha256hex :: "string \<Rightarrow> string \<Rightarrow> string"
  hmacSha1 :: "string \<Rightarrow> string \<Rightarrow> string"
  pbkdf2Sha256 :: "string \<Rightarrow> string \<Rightarrow> nat \<Rightarrow> nat \<Rightarrow> string"
  gcmSeal :: "string \<Rightarrow> string \<Rightarrow> string \<Rightarrow> string \<times> string"
  gcmOpen :: "string \<Rightarrow> string \<Rightarrow> string \<Rightarrow> string \<Rightarrow> string option"

definition IV_LENGTH :: nat where "IV_LENGTH = 16"
definition TAG_LENGTH :: nat where "TAG_LENGTH = 16"
definition KEY_LENGTH :: nat where "KEY_LENGTH = 32"
definition ITERATIONS :: nat where "ITERATIONS = 100000"

text \<open>\<^verbatim>\<open>getEncryptionKey()\<close>; the argument is \<^verbatim>\<open>process.env.ENCRYPTION_KEY\<close>.\<close>

definition getEncryptionKey :: "CryptoLib \<Rightarrow> string option \<Rightarrow> Exn + string" where
  "getEncryptionKey lib envKey =
    (case envKey of
       None \<Rightarrow> Inl MissingKeyError
     | Some key \<Rightarrow>
         if key = [] then Inl MissingKeyError
         else if length key = 32 then Inr key
         else Inr (pbkdf2Sha256 lib key ''feen-salt'' ITERATIONS KEY_LENGTH))"

text \<open>
  \<^verbatim>\<open>encrypt(plaintext)\<close>; \<open>iv\<close> is the value of \<^verbatim>\<open>crypto.randomBytes(IV_LENGTH)\<close>.
  The ciphertext passes through base64 text once (\<^verbatim>\<open>cipher.final\<close> adds no bytes
  in GCM mode) before it is joined to nonce and tag.
\<close>

definition encrypt :: "CryptoLib \<Rightarrow> string option \<Rightarrow> string \<Rightarrow> string \<Rightarrow> Exn + string" where
  "encrypt lib envKey iv plaintext =
    (case getEncryptionKey lib envKey of
       Inl e \<Rightarrow> Inl e
     | Inr key \<Rightarrow>
         (let (ciphertext, tag) = gcmSeal lib key iv plaintext;
              encrypted = base64_encode ciphertext @ base64_encode [];
              combined = iv @ tag @ base64_decode encrypted
          in Inr (base64_encode combined)))"

text \<open>\<^verbatim>\<open>decrypt(encryptedData)\<close>.\<close>

definition decrypt :: "CryptoLib \<Rightarrow> string option \<Rightarrow> string \<Rightarrow> Exn + string" where
  "decrypt lib envKey encryptedData =
    (case getEncryptionKey lib envKey of
       Inl e \<Rightarrow> Inl e
     | Inr key \<Rightarrow>
         (let combined = base64_decode encryptedData;
              iv = take IV_LENGTH combined;
              tag = take TAG_LENGTH (drop IV_LENGTH combined);
              encrypted = drop (IV_LENGTH + TAG_LENGTH) combined
          in case gcmOpen lib key iv tag encrypted of
               None \<Rightarrow> Inl CryptoError
             | Some decrypted \<Rightarrow> Inr decrypted))"

text \<open>\<^verbatim>\<open>hash(data)\<close>: the SHA-256 digest in hexadecimal.\<close>

definition hash :: "CryptoLib \<Rightarrow> string \<Rightarrow> string" where
  "hash lib data = sha256hex lib data"

text \<open>
  \<^verbatim>\<open>generateAccessToken(prefix)\<close>; \<open>random\<close> is the value of
  \<^verbatim>\<open>crypto.randomBytes(24)\<close>.
\<close>

definition generateAccessToken :: "string \<Rightarrow> string \<Rightarrow> string" where
  "generateAccessToken prefix random = prefix @ ''_'' @ base64url_encode random"

text \<open>
  \<^verbatim>\<open>crypto.timingSafeEqual(a, b)\<close>: throws when the buffers differ in length,
  compares them otherwise.
\<close>

definition timingSafeEqual :: "string \<Rightarrow> string \<Rightarrow> Exn + bool" where
  "timingSafeEqual a b = (if length a \<noteq> length b then Inl RangeError else Inr (a = b))"

section \<open>A stand-in for the primitives\<close>

text \<open>
  The theorems about the code hold for all primitives; where a closed instance is
  wanted, these functions take the place of the library: a tagged copy for SHA-256,
  digests of the right length for the HMACs and PBKDF2, and for AES-256-GCM a cipher
  that seals a plaintext into itself under a fixed tag and opens exactly what it
  sealed.
\<close>

definition standInLib :: CryptoLib where
  "standInLib =
    \<lparr>sha256hex = (\<lambda>s. ''sha256:'' @ s),
     hmacSha256hex = (\<lambda>key msg. take 64 (key @ replicate 64 (CHR ''0''))),
     hmacSha1 = (\<lambda>key msg. take 20 (key @ replicate 20 (CHR ''0''))),
     pbkdf2Sha256 = (\<lambda>pw salt iterations n. take n (pw @ salt @ replicate n (CHR ''k''))),
     gcmSeal = (\<lambda>key iv plaintext. (plaintext, replicate 16 (CHR ''T''))),
     gcmOpen = (\<lambda>key iv tag ciphertext.
                 if tag = replicate 16 (CHR ''T'') then Some ciphertext else None)\<rparr>"

definition standInKey :: "string option" where
  "standInKey = Some ''0123456789abcdef0123456789abcdef''"

section \<open>Request signing\<close>

definition SIGNATURE_VALIDITY_SECONDS :: int where
  "SIGNATURE_VALIDITY_SECONDS = 300"

text \<open>\<^verbatim>\<open>s.toUpperCase()\<close> on the ASCII letters; other bytes stay as they are.\<close>

definition toUpperCase :: "string \<Rightarrow> string" where
  "toUpperCase s =
     map (\<lambda>c. if 97 \<le> (of_char c :: nat) \<and> (of_char c :: nat) \<le> 122
               then char_of ((of_char c :: nat) - 32) else c) s"

text \<open>\<^verbatim>\<open>parts.join(sep)\<close>.\<close>

fun joinWith :: "string \<Rightarrow> string list \<Rightarrow> string" where
  "joinWith sep [] = []"
| "joinWith sep [x] = x"
| "joinWith sep (x # y # ys) = x @ sep @ joinWith sep (y # ys)"

record SignaturePayload =
  sp_timestamp :: int
  sp_nonce :: string
  sp_method :: string
  sp_path :: string
  sp_body :: "string option"
  sp_tokenId :: string

definition generateSignature :: "CryptoLib \<Rightarrow> SignaturePayload \<Rightarrow> string \<Rightarrow> string" where
  "generateSignature lib payload secret =
    (let signatureBase =
           joinWith [CHR 0x0A]
             [showInt (sp_timestamp payload),
              sp_nonce payload,
              toUpperCase (sp_method payload),
              sp_path payload,
              (case sp_body payload of None \<Rightarrow> [] | Some b \<Rightarrow> b),
              sp_tokenId payload]
     in hmacSha256hex lib secret signatureBase)"

record SignatureHeaders =
  sh_timestamp :: string
  sh_signature :: string
  sh_nonce :: string

text \<open>What \<^verbatim>\<open>verifySignature\<close> returns: \<^verbatim>\<open>{ valid, error? }\<close>.\<close>

record SignatureResult =
  valid :: bool
  error :: "string option"

text \<open>The module-level \<^verbatim>\<open>NONCE_CACHE\<close>, a map from \<open>tokenId:nonce\<close> to a timestamp.\<close>

type_synonym NonceCache = "string \<rightharpoonup> int"

text \<open>\<^verbatim>\<open>cleanOldNonces()\<close>; \<open>now\<close> is \<^verbatim>\<open>Math.floor(Date.now() / 1000)\<close>.\<close>

definition cleanOldNonces :: "int \<Rightarrow> NonceCache \<Rightarrow> NonceCache" where
  "cleanOldNonces now cache =
    (let cutoff = now - SIGNATURE_VALIDITY_SECONDS * 2
     in (\<lambda>key. case cache key of
                  None \<Rightarrow> None
                | Some timestamp \<Rightarrow> if timestamp < cutoff then None else Some timestamp))"

text \<open>
  \<^verbatim>\<open>verifySignature(headers, method, path, body, tokenId, secret)\<close>.  The result is
  what the call returns or throws, together with the cache it leaves behind: the nonce
  entry is written before the signature is compared, and stays when the comparison
  throws.
\<close>

definition verifySignature ::
  "CryptoLib \<Rightarrow> SignatureHeaders \<Rightarrow> string \<Rightarrow> string \<Rightarrow> string option \<Rightarrow> string \<Rightarrow> string \<Rightarrow>
   int \<Rightarrow> NonceCache \<Rightarrow> (Exn + SignatureResult) \<times> NonceCache" where
  "verifySignature lib headers method path body tokenId secret now cache =
    (case parseInt (sh_timestamp headers) of
       None \<Rightarrow> (Inr \<lparr>valid = False, error = Some ''Invalid timestamp''\<rparr>, cache)
     | Some timestamp \<Rightarrow>
         if \<bar>now - timestamp\<bar> > SIGNATURE_VALIDITY_SECONDS
         then (Inr \<lparr>valid = False,
                    error = Some (''Signature expired. Request timestamp: '' @ showInt timestamp
                                  @ '', Server time: '' @ showInt now)\<rparr>, cache)
         else
           let nonceKey = tokenId @ '':'' @ sh_nonce headers
           in if cache nonceKey \<noteq> None
              then (Inr \<lparr>valid = False,
                         error = Some ''Nonce already used (replay attack detected)''\<rparr>, cache)
              else
                let cache1 = cache(nonceKey \<mapsto> timestamp);
                    cache2 = cleanOldNonces now cache1;
                    expectedSignature =
                      generateSignature lib
                        \<lparr>sp_timestamp = timestamp, sp_nonce = sh_nonce headers,
                         sp_method = method, sp_path = path, sp_body = body,
                         sp_tokenId = tokenId\<rparr> secret
                in case timingSafeEqual (sh_signature headers) expectedSignature of
                     Inl e \<Rightarrow> (Inl e, cache2)
                   | Inr signatureValid \<Rightarrow>
                       if \<not> signatureValid
                       then (Inr \<lparr>valid = False, error = Some ''Invalid signature''\<rparr>, cache2)
                       else (Inr \<lparr>valid = True, error = None\<rparr>, cache2))"

text \<open>A sequence of calls, each with its own arguments and clock, run one after the other.\<close>

record SignedCall =
  sc_headers :: SignatureHeaders
  sc_method :: string
  sc_path :: string
  sc_body :: "string option"
  sc_tokenId :: string
  sc_secret :: string
  sc_now :: int

fun verifyAll :: "CryptoLib \<Rightarrow> SignedCall list \<Rightarrow> NonceCache \<Rightarrow> NonceCache" where
  "verifyAll lib [] cache = cache"
| "verifyAll lib (c # cs) cache =
     verifyAll lib cs
       (snd (verifySignature lib (sc_headers c) (sc_method c) (sc_path c) (sc_body c)
               (sc_tokenId c) (sc_secret c) (sc_now c) cache))"

section \<open>Two-factor codes\<close>

definition TOTP_STEP :: nat where "TOTP_STEP = 30"
definition TOTP_DIGITS :: nat where "TOTP_DIGITS = 6"
definition TOTP_WINDOW :: int where "TOTP_WINDOW = 1"

text \<open>
  \<^verbatim>\<open>base32Decode(encoded)\<close>.  \<open>value\<close> goes through the 32-bit operators
  \<^verbatim>\<open><<\<close>, \<^verbatim>\<open>|\<close> and \<^verbatim>\<open>>>>\<close>, so it is a 32-bit word.
\<close>

definition base32Alphabet :: string where
  "base32Alphabet = ''ABCDEFGHIJKLMNOPQRSTUVWXYZ234567''"

fun base32Loop :: "32 word \<Rightarrow> nat \<Rightarrow> string \<Rightarrow> string" where
  "base32Loop v bits [] = []"
| "base32Loop v bits (c # cs) =
    (case indexOf c base32Alphabet of
       None \<Rightarrow> base32Loop v bits cs
     | Some index \<Rightarrow>
         (let v1 = or (push_bit 5 v) (of_nat index);
              bits1 = bits + 5
          in if bits1 \<ge> 8
             then char_of (unat (and (drop_bit (bits1 - 8) v1) 255)) # base32Loop v1 (bits1 - 8) cs
             else base32Loop v1 bits1 cs))"

definition base32Decode :: "string \<Rightarrow> string" where
  "base32Decode encoded =
    (let cleanedInput = filter (\<lambda>c. c \<in> set base32Alphabet) (toUpperCase encoded)
     in base32Loop 0 0 cleanedInput)"

text \<open>\<^verbatim>\<open>buf[i] & mask\<close>: an index outside the buffer reads \<^verbatim>\<open>undefined\<close>, which the operator takes for 0.\<close>

definition byteAt :: "string \<Rightarrow> nat \<Rightarrow> nat" where
  "byteAt buf i = (if i < length buf then of_char (buf ! i) else 0)"

text \<open>\<^verbatim>\<open>timeBuffer.writeBigInt64BE(BigInt(timeStep))\<close>: eight bytes, the high byte first.\<close>

definition int64BE :: "int \<Rightarrow> string" where
  "int64BE n = map (\<lambda>i. char_of (unat (drop_bit (8 * (7 - i)) (word_of_int n :: 64 word)))) [0..<8]"

text \<open>\<^verbatim>\<open>s.padStart(n, "0")\<close>.\<close>

definition padStart :: "nat \<Rightarrow> char \<Rightarrow> string \<Rightarrow> string" where
  "padStart n c s = replicate (n - length s) c @ s"

definition generateTOTP :: "CryptoLib \<Rightarrow> string \<Rightarrow> int \<Rightarrow> string" where
  "generateTOTP lib secret timeStep =
    (let secretBuffer = base32Decode secret;
         timeBuffer = int64BE timeStep;
         hash = hmacSha1 lib secretBuffer timeBuffer;
         offset = and (byteAt hash (length hash - 1)) 15;
         binary = or (push_bit 24 (and (byteAt hash offset) 127))
                    (or (push_bit 16 (and (byteAt hash (offset + 1)) 255))
                        (or (push_bit 8 (and (byteAt hash (offset + 2)) 255))
                            (and (byteAt hash (offset + 3)) 255)));
         otp = binary mod 10 ^ TOTP_DIGITS
     in padStart TOTP_DIGITS (CHR ''0'') (showNat otp))"

text \<open>
  \<^verbatim>\<open>verifyTOTP(secret, code)\<close>: the loop over the steps \<open>-1, 0, 1\<close> around the
  current one; \<open>now\<close> is \<^verbatim>\<open>Math.floor(Date.now() / 1000)\<close>.
\<close>

fun verifyTOTPLoop :: "CryptoLib \<Rightarrow> string \<Rightarrow> string \<Rightarrow> nat \<Rightarrow> int list \<Rightarrow> Exn + bool" where
  "verifyTOTPLoop lib secret code now [] = Inr False"
| "verifyTOTPLoop lib secret code now (i # rest) =
    (let timeStep = int (now div TOTP_STEP) + i;
         expectedCode = generateTOTP lib secret timeStep
     in case timingSafeEqual code expectedCode of
          Inl e \<Rightarrow> Inl e
        | Inr same \<Rightarrow> if same then Inr True else verifyTOTPLoop lib secret code now rest)"

definition verifyTOTP :: "CryptoLib \<Rightarrow> string \<Rightarrow> string \<Rightarrow> nat \<Rightarrow> Exn + bool" where
  "verifyTOTP lib secret code now =
     verifyTOTPLoop lib secret code now [- TOTP_WINDOW..TOTP_WINDOW]"

section \<open>The persistent store\<close>

datatype ApiProvider =
    OPENAI | ANTHROPIC | GOOGLE | AZURE_OPENAI | COHERE | MISTRAL | GROQ | TOGETHER
  | REPLICATE | HUGGINGFACE | BYTEZ | CUSTOM

fun providerName :: "ApiProvider \<Rightarrow> string" where
  "providerName OPENAI = ''OPENAI''"
| "providerName ANTHROPIC = ''ANTHROPIC''"
| "providerName GOOGLE = ''GOOGLE''"
| "providerName AZURE_OPENAI = ''AZURE_OPENAI''"
| "providerName COHERE = ''COHERE''"
| "providerName MISTRAL = ''MISTRAL''"
| "providerName GROQ = ''GROQ''"
| "providerName TOGETHER = ''TOGETHER''"
| "providerName REPLICATE = ''REPLICATE''"
| "providerName HUGGINGFACE = ''HUGGINGFACE''"
| "providerName BYTEZ = ''BYTEZ''"
| "providerName CUSTOM = ''CUSTOM''"

text \<open>The rows the code reads and writes; instants are milliseconds since the epoch.\<close>

record ApiKey =
  ak_id :: string
  ak_userId :: string
  ak_teamId :: "string option"
  ak_provider :: ApiProvider
  ak_encryptedKey :: string
  ak_isActive :: bool
  ak_lastUsedAt :: "nat option"

record SharedKey =
  sk_id :: string
  sk_apiKeyId :: string
  sk_ownerId :: string
  sk_accessToken :: string
  sk_tokenHash :: string
  sk_isActive :: bool
  sk_expiresAt :: "nat option"
  sk_maxUsage :: "int option"
  sk_usageCount :: int
  sk_allowedIPs :: "string list"
  sk_rateLimit :: int
  sk_lastUsedAt :: "nat option"
  sk_updatedAt :: nat

record AuditLog =
  al_userId :: string
  al_action :: string
  al_resource :: string
  al_resourceId :: string
  al_details :: Json

record UsageLog =
  ul_apiKeyId :: string
  ul_sharedKeyId :: string
  ul_userId :: string
  ul_provider :: ApiProvider
  ul_model :: "string option"
  ul_endpoint :: string
  ul_method :: string
  ul_statusCode :: int
  ul_tokens :: Json
  ul_latencyMs :: int
  ul_ipAddress :: string
  ul_userAgent :: "string option"

record Db =
  sharedKeys :: "SharedKey list"
  apiKeys :: "ApiKey list"
  usageLogs :: "UsageLog list"
  auditLogs :: "AuditLog list"

text \<open>
  \<^verbatim>\<open>db.sharedKey.update({ where: { id }, data })\<close> changes the row with that id and
  throws when there is none.
\<close>

fun updateFirst :: "('a \<Rightarrow> bool) \<Rightarrow> ('a \<Rightarrow> 'a) \<Rightarrow> 'a list \<Rightarrow> 'a list" where
  "updateFirst P f [] = []"
| "updateFirst P f (x # xs) = (if P x then f x # xs else x # updateFirst P f xs)"

definition db_updateSharedKey :: "string \<Rightarrow> (SharedKey \<Rightarrow> SharedKey) \<Rightarrow> Db \<Rightarrow> Exn + Db" where
  "db_updateSharedKey tokenId f d =
    (if list_ex (\<lambda>s. sk_id s = tokenId) (sharedKeys d)
     then Inr (d\<lparr>sharedKeys := updateFirst (\<lambda>s. sk_id s = tokenId) f (sharedKeys d)\<rparr>)
     else Inl RecordNotFound)"

definition db_createAuditLog :: "AuditLog \<Rightarrow> Db \<Rightarrow> Db" where
  "db_createAuditLog entry d = d\<lparr>auditLogs := auditLogs d @ [entry]\<rparr>"

text \<open>
  The lookup of \<^verbatim>\<open>handleProxy\<close>:
  \<^verbatim>\<open>db.sharedKey.findFirst({ where: { tokenHash, isActive: true } })\<close> with
  \<^verbatim>\<open>tokenHash = hash(accessToken)\<close>.
\<close>

definition findSharedKeyByToken :: "CryptoLib \<Rightarrow> Db \<Rightarrow> string \<Rightarrow> SharedKey option" where
  "findSharedKeyByToken lib d accessToken =
     find (\<lambda>s. sk_tokenHash s = hash lib accessToken \<and> sk_isActive s) (sharedKeys d)"

section \<open>Store and fast store together\<close>

text \<open>
  A handler works on both stores.  An action takes the state and gives what it returns
  or throws together with the state it leaves: what was written before an exception
  stays written.
\<close>

record World =
  w_db :: Db
  w_redis :: Redis

type_synonym 'a Action = "World \<Rightarrow> (Exn + 'a) \<times> World"

definition returnA :: "'a \<Rightarrow> 'a Action" where
  "returnA x w = (Inr x, w)"

definition thenA :: "'a Action \<Rightarrow> ('a \<Rightarrow> 'b Action) \<Rightarrow> 'b Action" where
  "thenA m f w = (case m w of (Inl e, w1) \<Rightarrow> (Inl e, w1) | (Inr x, w1) \<Rightarrow> f x w1)"

text \<open>A command of the fast store that changes it, one that also returns a value, and one that only reads.\<close>

definition redisWrite :: "(Redis \<Rightarrow> Exn + Redis) \<Rightarrow> unit Action" where
  "redisWrite command w =
    (case command (w_redis w) of Inl e \<Rightarrow> (Inl e, w) | Inr r \<Rightarrow> (Inr (), w\<lparr>w_redis := r\<rparr>))"

definition redisCall :: "(Redis \<Rightarrow> Exn + ('a \<times> Redis)) \<Rightarrow> 'a Action" where
  "redisCall command w =
    (case command (w_redis w) of Inl e \<Rightarrow> (Inl e, w) | Inr (x, r) \<Rightarrow> (Inr x, w\<lparr>w_redis := r\<rparr>))"

definition redisRead :: "(Redis \<Rightarrow> Exn + 'a) \<Rightarrow> 'a Action" where
  "redisRead command w = (case command (w_redis w) of Inl e \<Rightarrow> (Inl e, w) | Inr x \<Rightarrow> (Inr x, w))"

definition dbWrite :: "(Db \<Rightarrow> Exn + Db) \<Rightarrow> unit Action" where
  "dbWrite command w =
    (case command (w_db w) of Inl e \<Rightarrow> (Inl e, w) | Inr d \<Rightarrow> (Inr (), w\<lparr>w_db := d\<rparr>))"

section \<open>Suspicious activity and token rotation\<close>

datatype SuspiciousActivityType =
    RATE_LIMIT_EXCEEDED | BURST_REQUESTS | GEOGRAPHIC_ANOMALY | MULTIPLE_LOCATIONS
  | INVALID_SIGNATURE | EXPIRED_TIMESTAMP | REPLAY_ATTACK
  | UNUSUAL_USAGE_PATTERN | HIGH_ERROR_RATE | UNUSUAL_MODELS
  | IP_BLACKLISTED | UNAUTHORIZED_SCOPE

fun activityValue :: "SuspiciousActivityType \<Rightarrow> string" where
  "activityValue RATE_LIMIT_EXCEEDED = ''rate_limit_exceeded''"
| "activityValue BURST_REQUESTS = ''burst_requests''"
| "activityValue GEOGRAPHIC_ANOMALY = ''geographic_anomaly''"
| "activityValue MULTIPLE_LOCATIONS = ''multiple_locations''"
| "activityValue INVALID_SIGNATURE = ''invalid_signature''"
| "activityValue EXPIRED_TIMESTAMP = ''expired_timestamp''"
| "activityValue REPLAY_ATTACK = ''replay_attack''"
| "activityValue UNUSUAL_USAGE_PATTERN = ''unusual_usage_pattern''"
| "activityValue HIGH_ERROR_RATE = ''high_error_rate''"
| "activityValue UNUSUAL_MODELS = ''unusual_models''"
| "activityValue IP_BLACKLISTED = ''ip_blacklisted''"
| "activityValue UNAUTHORIZED_SCOPE = ''unauthorized_scope''"

fun ROTATION_THRESHOLDS :: "SuspiciousActivityType \<Rightarrow> int" where
  "ROTATION_THRESHOLDS RATE_LIMIT_EXCEEDED = 10"
| "ROTATION_THRESHOLDS BURST_REQUESTS = 5"
| "ROTATION_THRESHOLDS GEOGRAPHIC_ANOMALY = 3"
| "ROTATION_THRESHOLDS MULTIPLE_LOCATIONS = 5"
| "ROTATION_THRESHOLDS INVALID_SIGNATURE = 3"
| "ROTATION_THRESHOLDS EXPIRED_TIMESTAMP = 5"
| "ROTATION_THRESHOLDS REPLAY_ATTACK = 1"
| "ROTATION_THRESHOLDS UNUSUAL_USAGE_PATTERN = 5"
| "ROTATION_THRESHOLDS HIGH_ERROR_RATE = 10"
| "ROTATION_THRESHOLDS UNUSUAL_MODELS = 3"
| "ROTATION_THRESHOLDS IP_BLACKLISTED = 1"
| "ROTATION_THRESHOLDS UNAUTHORIZED_SCOPE = 3"

definition VIOLATION_WINDOW :: nat where
  "VIOLATION_WINDOW = 3600"

text \<open>The argument of \<^verbatim>\<open>recordSuspiciousActivity\<close>: an event without its timestamp.\<close>

record SuspiciousActivity =
  ev_type :: SuspiciousActivityType
  ev_tokenId :: string
  ev_userId :: string
  ev_details :: "(string \<times> Json) list"

text \<open>
  An object literal with a spread, \<^verbatim>\<open>{ a: 1, ...rest }\<close>: a key of \<open>rest\<close> that is
  there already takes the new value in place, a new key goes to the end.
\<close>

definition spread :: "(string \<times> Json) list \<Rightarrow> (string \<times> Json) list \<Rightarrow> (string \<times> Json) list" where
  "spread base rest = foldl (\<lambda>acc kv. AList.update (fst kv) (snd kv) acc) base rest"

definition eventJson :: "SuspiciousActivity \<Rightarrow> nat \<Rightarrow> Json" where
  "eventJson event now =
     JObj [(''type'', JStr (activityValue (ev_type event))),
           (''tokenId'', JStr (ev_tokenId event)),
           (''userId'', JStr (ev_userId event)),
           (''details'', JObj (ev_details event)),
           (''timestamp'', JNum (int now))]"

definition notificationJson :: "string \<Rightarrow> string \<Rightarrow> string \<Rightarrow> nat \<Rightarrow> Json" where
  "notificationJson userId tokenId reason now =
     JObj [(''type'', JStr ''token_rotated''),
           (''userId'', JStr userId),
           (''tokenId'', JStr tokenId),
           (''reason'', JStr reason),
           (''timestamp'', JNum (int now))]"

text \<open>\<^verbatim>\<open>queueRotationNotification(userId, tokenId, reason)\<close>.\<close>

definition queueRotationNotification :: "string \<Rightarrow> string \<Rightarrow> string \<Rightarrow> nat \<Rightarrow> unit Action" where
  "queueRotationNotification userId tokenId reason now =
     redisWrite (redis_lpush ''notifications:queue'' (notificationJson userId tokenId reason now))"

text \<open>
  \<^verbatim>\<open>rotateToken(tokenId, userId, reason)\<close>; \<open>random\<close> is the value of
  \<^verbatim>\<open>crypto.randomBytes(24)\<close> inside \<^verbatim>\<open>generateAccessToken\<close>, \<open>now\<close> the clock.
\<close>

definition rotatedAuditLog :: "string \<Rightarrow> string \<Rightarrow> string \<Rightarrow> SharedKey option \<Rightarrow> string \<Rightarrow> AuditLog" where
  "rotatedAuditLog tokenId userId reason oldToken newAccessToken =
     \<lparr>al_userId = userId,
      al_action = ''TOKEN_ROTATED'',
      al_resource = ''sharedKey'',
      al_resourceId = tokenId,
      al_details =
        JObj [(''reason'', JStr reason),
              (''oldTokenPrefix'',
                 JStr ((case oldToken of None \<Rightarrow> ''undefined''
                        | Some t \<Rightarrow> take 12 (sk_accessToken t)) @ ''...'')),
              (''newTokenPrefix'', JStr (take 12 newAccessToken @ ''...''))]\<rparr>"

definition rotateToken ::
  "CryptoLib \<Rightarrow> string \<Rightarrow> string \<Rightarrow> string \<Rightarrow> string \<Rightarrow> nat \<Rightarrow> string Action" where
  "rotateToken lib tokenId userId reason random now =
    (\<lambda>w0.
      (let newAccessToken = generateAccessToken ''feen'' random;
           newTokenHash = hash lib newAccessToken;
           oldToken = find (\<lambda>s. sk_id s = tokenId) (sharedKeys (w_db w0))
       in thenA (dbWrite (db_updateSharedKey tokenId
                   (\<lambda>s. s\<lparr>sk_accessToken := newAccessToken, sk_tokenHash := newTokenHash,
                           sk_updatedAt := now\<rparr>)))
          (\<lambda>_. thenA (redisRead (redis_keys (''suspicious:'' @ tokenId @ '':*'')))
          (\<lambda>keys. thenA (if length keys > 0 then redisWrite (redis_del keys) else returnA ())
          (\<lambda>_. thenA (dbWrite (\<lambda>d. Inr (db_createAuditLog
                          (rotatedAuditLog tokenId userId reason oldToken newAccessToken) d)))
          (\<lambda>_. thenA (queueRotationNotification userId tokenId reason now)
          (\<lambda>_. returnA newAccessToken))))) w0))"

text \<open>What \<^verbatim>\<open>recordSuspiciousActivity\<close> returns: \<^verbatim>\<open>{ rotated, newToken? }\<close>.\<close>

record RotationOutcome =
  rotated :: bool
  newToken :: "string option"

definition suspiciousKey :: "SuspiciousActivity \<Rightarrow> string" where
  "suspiciousKey event = ''suspicious:'' @ ev_tokenId event @ '':'' @ activityValue (ev_type event)"

definition suspiciousAuditLog :: "SuspiciousActivity \<Rightarrow> int \<Rightarrow> int \<Rightarrow> AuditLog" where
  "suspiciousAuditLog event violations threshold =
     \<lparr>al_userId = ev_userId event,
      al_action = ''SUSPICIOUS_ACTIVITY'',
      al_resource = ''sharedKey'',
      al_resourceId = ev_tokenId event,
      al_details =
        JObj (spread [(''type'', JStr (activityValue (ev_type event))),
                      (''violations'', JNum violations),
                      (''threshold'', JNum threshold)]
                (ev_details event))\<rparr>"

definition recordSuspiciousActivity ::
  "CryptoLib \<Rightarrow> SuspiciousActivity \<Rightarrow> string \<Rightarrow> nat \<Rightarrow> RotationOutcome Action" where
  "recordSuspiciousActivity lib event random now =
    (let eventKey = suspiciousKey event
     in thenA (redisWrite (redis_lpush eventKey (eventJson event now)))
        (\<lambda>_. thenA (redisWrite (redis_expire eventKey VIOLATION_WINDOW))
        (\<lambda>_. thenA (redisRead (redis_llen eventKey))
        (\<lambda>violations.
           let threshold = ROTATION_THRESHOLDS (ev_type event)
           in thenA (dbWrite (\<lambda>d. Inr (db_createAuditLog
                        (suspiciousAuditLog event violations threshold) d)))
              (\<lambda>_. if violations \<ge> threshold
                    then thenA (rotateToken lib (ev_tokenId event) (ev_userId event)
                                  (activityValue (ev_type event)) random now)
                           (\<lambda>newAccessToken.
                              returnA \<lparr>rotated = True, newToken = Some newAccessToken\<rparr>)
                    else returnA \<lparr>rotated = False, newToken = None\<rparr>)))))"

text \<open>\<^verbatim>\<open>requestTokenRotation(tokenId, userId)\<close>: rotation on the owner's request.\<close>

definition requestTokenRotation ::
  "CryptoLib \<Rightarrow> string \<Rightarrow> string \<Rightarrow> string \<Rightarrow> nat \<Rightarrow> string Action" where
  "requestTokenRotation lib tokenId userId random now =
    (\<lambda>w. case find (\<lambda>s. sk_id s = tokenId \<and> sk_ownerId s = userId) (sharedKeys (w_db w)) of
            None \<Rightarrow> (Inl NotAuthorizedError, w)
          | Some token \<Rightarrow> rotateToken lib tokenId userId ''manual_rotation'' random now w)"

text \<open>Reading the fast store: the list at a key, a missing key being the empty list.\<close>

definition listAt :: "Redis \<Rightarrow> string \<Rightarrow> Json list option" where
  "listAt r k =
    (case redis_lookup r k of
       None \<Rightarrow> Some []
     | Some e \<Rightarrow> (case re_value e of RList l \<Rightarrow> Some l | RInt n \<Rightarrow> None | RStr s \<Rightarrow> None))"

text \<open>What \<^verbatim>\<open>redis.keys\<close> followed by \<^verbatim>\<open>redis.del\<close> leaves of the store in \<^verbatim>\<open>rotateToken\<close>.\<close>

definition clearViolations :: "string \<Rightarrow> Redis \<Rightarrow> Redis" where
  "clearViolations tokenId r =
     r\<lparr>entries := filter (\<lambda>kv. \<not> globMatch (''suspicious:'' @ tokenId @ '':*'') (fst kv)) (entries r)\<rparr>"

section \<open>Sample data\<close>

text \<open>A store with one API key and one shared token on it, for the closed instances.\<close>

definition sampleApiKey :: ApiKey where
  "sampleApiKey =
    \<lparr>ak_id = ''key1'', ak_userId = ''u1'', ak_teamId = None, ak_provider = OPENAI,
     ak_encryptedKey = ''QUFBQUFBQUFBQUFBQUFBQVRUVFRUVFRUVFRUVFRUVFRoZWxsbw=='',
     ak_isActive = True, ak_lastUsedAt = None\<rparr>"

definition sampleSharedKey :: SharedKey where
  "sampleSharedKey =
    \<lparr>sk_id = ''tok1'', sk_apiKeyId = ''key1'', sk_ownerId = ''u1'',
     sk_accessToken = ''feen_old'', sk_tokenHash = ''sha256:feen_old'',
     sk_isActive = True, sk_expiresAt = None, sk_maxUsage = None, sk_usageCount = 0,
     sk_allowedIPs = [], sk_rateLimit = 100, sk_lastUsedAt = None, sk_updatedAt = 0\<rparr>"

definition sampleWorld :: World where
  "sampleWorld =
    \<lparr>w_db = \<lparr>sharedKeys = [sampleSharedKey], apiKeys = [sampleApiKey],
              usageLogs = [], auditLogs = []\<rparr>,
     w_redis = \<lparr>reachable = True, entries = []\<rparr>\<rparr>"

section \<open>Router\<close>

text \<open>\<^verbatim>\<open>PROVIDER_ENDPOINTS[provider]\<close>; a provider without an entry reads \<^verbatim>\<open>undefined\<close>.\<close>

fun PROVIDER_ENDPOINTS :: "ApiProvider \<Rightarrow> string option" where
  "PROVIDER_ENDPOINTS OPENAI = Some ''https://api.openai.com''"
| "PROVIDER_ENDPOINTS ANTHROPIC = Some ''https://api.anthropic.com''"
| "PROVIDER_ENDPOINTS GOOGLE = Some ''https://generativelanguage.googleapis.com''"
| "PROVIDER_ENDPOINTS COHERE = Some ''https://api.cohere.ai''"
| "PROVIDER_ENDPOINTS MISTRAL = Some ''https://api.mistral.ai''"
| "PROVIDER_ENDPOINTS GROQ = Some ''https://api.groq.com/openai''"
| "PROVIDER_ENDPOINTS TOGETHER = Some ''https://api.together.xyz''"
| "PROVIDER_ENDPOINTS REPLICATE = Some ''https://api.replicate.com''"
| "PROVIDER_ENDPOINTS HUGGINGFACE = Some ''https://api-inference.huggingface.co''"
| "PROVIDER_ENDPOINTS BYTEZ = Some ''https://api.bytez.ai/v2''"
| "PROVIDER_ENDPOINTS AZURE_OPENAI = None"
| "PROVIDER_ENDPOINTS CUSTOM = None"

definition MODEL_PROVIDER_MAP :: "(string \<times> ApiProvider list) list" where
  "MODEL_PROVIDER_MAP =
    [(''gpt-3.5-turbo'', [OPENAI, AZURE_OPENAI, TOGETHER]),
     (''gpt-4'', [OPENAI, AZURE_OPENAI]),
     (''gpt-4-turbo'', [OPENAI, AZURE_OPENAI]),
     (''gpt-4o'', [OPENAI, AZURE_OPENAI]),
     (''claude-3-opus-20240229'', [ANTHROPIC]),
     (''claude-3-sonnet-20240229'', [ANTHROPIC]),
     (''claude-3-haiku-20240307'', [ANTHROPIC]),
     (''mistral-large-latest'', [MISTRAL, AZURE_OPENAI]),
     (''llama-3-70b-instruct'', [TOGETHER, GROQ, MISTRAL]),
     (''llama-3-8b-instruct'', [TOGETHER, GROQ, MISTRAL])]"

text \<open>
  \<^verbatim>\<open>MODEL_PROVIDER_MAP[model]\<close> reads a property of an object literal: a model of
  the table gives its list, a name every object inherits (\<open>constructor\<close>,
  \<open>toString\<close>, ...) gives a value that is no list, any other name gives
  \<^verbatim>\<open>undefined\<close>.
\<close>

definition objectPrototypeKeys :: "string list" where
  "objectPrototypeKeys =
    [''constructor'', ''__defineGetter__'', ''__defineSetter__'', ''hasOwnProperty'',
     ''__lookupGetter__'', ''__lookupSetter__'', ''isPrototypeOf'', ''propertyIsEnumerable'',
     ''toString'', ''valueOf'', ''__proto__'', ''toLocaleString'']"

datatype ModelEntry = Listed "ApiProvider list" | Inherited | Unlisted

definition modelEntry :: "string \<Rightarrow> ModelEntry" where
  "modelEntry model =
    (case map_of MODEL_PROVIDER_MAP model of
       Some providers \<Rightarrow> Listed providers
     | None \<Rightarrow> if model \<in> set objectPrototypeKeys then Inherited else Unlisted)"

text \<open>
  \<^verbatim>\<open>array.sort(compare)\<close>, as an insertion sort: each element in turn goes before
  the first element already placed that it compares below.  For a comparison that
  orders the elements consistently this is the stable sort the language prescribes;
  for any other comparison the language leaves the order to the engine.
\<close>

fun insertBy :: "('a \<Rightarrow> 'a \<Rightarrow> int) \<Rightarrow> 'a \<Rightarrow> 'a list \<Rightarrow> 'a list" where
  "insertBy compare x [] = [x]"
| "insertBy compare x (y # ys) =
     (if compare x y < 0 then x # y # ys else y # insertBy compare x ys)"

definition sortBy :: "('a \<Rightarrow> 'a \<Rightarrow> int) \<Rightarrow> 'a list \<Rightarrow> 'a list" where
  "sortBy compare xs = foldl (\<lambda>sorted x. insertBy compare x sorted) [] xs"

text \<open>
  A cached latency: \<^verbatim>\<open>latency ? parseInt(latency) : Infinity\<close>, and the sign of
  \<^verbatim>\<open>a.latency - b.latency\<close> (a difference that is not a number counts as 0).
\<close>

datatype Latency = Millis int | Infinite | NotANumber

definition latencyOf :: "string option \<Rightarrow> Latency" where
  "latencyOf cached =
    (case cached of
       None \<Rightarrow> Infinite
     | Some s \<Rightarrow> if s = [] then Infinite
                 else (case parseInt s of None \<Rightarrow> NotANumber | Some n \<Rightarrow> Millis n))"

fun compareLatency :: "ApiProvider \<times> Latency \<Rightarrow> ApiProvider \<times> Latency \<Rightarrow> int" where
  "compareLatency (p, Millis a) (q, Millis b) = a - b"
| "compareLatency (p, Millis a) (q, Infinite) = - 1"
| "compareLatency (p, Infinite) (q, Millis b) = 1"
| "compareLatency (p, Infinite) (q, Infinite) = 0"
| "compareLatency (p, NotANumber) (q, b) = 0"
| "compareLatency (p, a) (q, NotANumber) = 0"

fun readLatencies :: "ApiProvider list \<Rightarrow> Redis \<Rightarrow> Exn + (ApiProvider \<times> Latency) list" where
  "readLatencies [] r = Inr []"
| "readLatencies (p # ps) r =
    (case redis_get (''latency:'' @ providerName p) r of
       Inl e \<Rightarrow> Inl e
     | Inr cached \<Rightarrow>
         (case readLatencies ps r of
            Inl e \<Rightarrow> Inl e
          | Inr scores \<Rightarrow> Inr ((p, latencyOf cached) # scores)))"

text \<open>\<^verbatim>\<open>getFastestProvider(model, availableProviders)\<close>; \<open>None\<close> is \<^verbatim>\<open>null\<close>.\<close>

definition getFastestProvider ::
  "string \<Rightarrow> ApiProvider list \<Rightarrow> Redis \<Rightarrow> Exn + ApiProvider option" where
  "getFastestProvider model availableProviders r =
    (case modelEntry model of
       Inherited \<Rightarrow>
         (case availableProviders of [] \<Rightarrow> Inr None | p # ps \<Rightarrow> Inl TypeError)
     | entry \<Rightarrow>
         (let preferredProviders = (case entry of Listed providers \<Rightarrow> providers | _ \<Rightarrow> []);
              candidates = filter (\<lambda>p. p \<in> set preferredProviders) availableProviders
          in if length candidates = 0
             then (case availableProviders of [] \<Rightarrow> Inr None | p # ps \<Rightarrow> Inr (Some p))
             else if length candidates = 1
             then (case candidates of [] \<Rightarrow> Inr None | p # ps \<Rightarrow> Inr (Some p))
             else (case readLatencies candidates r of
                     Inl e \<Rightarrow> Inl e
                   | Inr scores \<Rightarrow>
                       (case sortBy compareLatency scores of
                          [] \<Rightarrow> Inl TypeError
                        | first # rest \<Rightarrow> Inr (Some (fst first))))))"

text \<open>\<^verbatim>\<open>recordLatency(provider, latencyMs)\<close>.\<close>

definition recordLatency :: "ApiProvider \<Rightarrow> int \<Rightarrow> Redis \<Rightarrow> Exn + Redis" where
  "recordLatency provider latencyMs r =
     redis_set_ex (''latency:'' @ providerName provider) (showInt latencyMs) 60 r"

text \<open>
  The comparison \<^verbatim>\<open>handleProxy\<close> sorts the keys with: a key of the best provider
  first, then the key the shared token refers to.
\<close>

definition compareApiKeys :: "ApiProvider option \<Rightarrow> string \<Rightarrow> ApiKey \<Rightarrow> ApiKey \<Rightarrow> int" where
  "compareApiKeys bestProvider apiKeyId a b =
    (if Some (ak_provider a) = bestProvider then - 1
     else if Some (ak_provider b) = bestProvider then 1
     else if ak_id a = apiKeyId then - 1
     else if ak_id b = apiKeyId then 1
     else 0)"

section \<open>Proxy\<close>

text \<open>
  The request as the handler reads it.  \<open>rq_model\<close> is what
  \<^verbatim>\<open>JSON.parse(requestText).model\<close> comes to: the body parses to \<^verbatim>\<open>null\<close>, whose
  property cannot be read; there is no model (no JSON, no such property, or a value
  that counts as false); or there is one, given as the property name it is used as.
\<close>

datatype BodyModel = BodyNull | NoModel | Model string

record ProxyRequest =
  rq_method :: string
  rq_authorization :: "string option"
  rq_forwardedFor :: "string option"
  rq_contentType :: "string option"
  rq_providerKey :: "string option"
  rq_userAgent :: "string option"
  rq_text :: string
  rq_model :: BodyModel
  rq_path :: "string list"

record FetchRequest =
  fr_url :: string
  fr_method :: string
  fr_headers :: "(string \<times> string) list"
  fr_body :: "string option"

record UpstreamResponse =
  ur_status :: int
  ur_statusText :: string
  ur_headers :: "(string \<times> string) list"
  ur_body :: string

datatype FetchResult = FetchThrows | FetchReturns UpstreamResponse

text \<open>
  What surrounds the handler: the primitives and the master key, the upstream providers
  as a function from the call to what \<^verbatim>\<open>fetch\<close> does, the token counts the handler
  reads from a JSON body, and the clock in milliseconds: \<open>pe_start\<close> at entry,
  \<open>pe_now\<close> for the policy and the limiter, \<open>pe_end\<close> after the upstream calls.
\<close>

record ProxyEnv =
  pe_lib :: CryptoLib
  pe_encryptionKey :: "string option"
  pe_fetch :: "FetchRequest \<Rightarrow> FetchResult"
  pe_tokenUsage :: "UpstreamResponse \<Rightarrow> Json"
  pe_start :: nat
  pe_now :: nat
  pe_end :: nat

datatype ResponseBody = JsonBody Json | StreamBody string

record ClientResponse =
  cr_status :: int
  cr_statusText :: string
  cr_headers :: "(string \<times> string) list"
  cr_body :: ResponseBody

text \<open>\<^verbatim>\<open>NextResponse.json({ error: message }, { status })\<close>.\<close>

definition jsonError :: "string \<Rightarrow> int \<Rightarrow> ClientResponse" where
  "jsonError message status =
     \<lparr>cr_status = status, cr_statusText = [], cr_headers = [],
      cr_body = JsonBody (JObj [(''error'', JStr message)])\<rparr>"

text \<open>The token and the row: the first checks of the handler.\<close>

definition authenticate :: "CryptoLib \<Rightarrow> Db \<Rightarrow> string option \<Rightarrow> ClientResponse + SharedKey" where
  "authenticate lib d authHeader =
    (case authHeader of
       None \<Rightarrow> Inl (jsonError ''Missing or invalid authorization header'' 401)
     | Some h \<Rightarrow>
         if \<not> startsWith h ''Bearer ''
         then Inl (jsonError ''Missing or invalid authorization header'' 401)
         else let accessToken = drop 7 h
              in if \<not> startsWith accessToken ''feen_''
                 then Inl (jsonError ''Invalid token format'' 401)
                 else (case findSharedKeyByToken lib d accessToken of
                         None \<Rightarrow> Inl (jsonError ''Invalid or expired access token'' 401)
                       | Some sharedKey \<Rightarrow> Inr sharedKey))"

text \<open>
  \<^verbatim>\<open>request.headers.get("x-forwarded-for")?.split(",")[0] || "unknown"\<close>.
\<close>

definition clientIPOf :: "string option \<Rightarrow> string" where
  "clientIPOf forwardedFor =
    (case forwardedFor of
       None \<Rightarrow> ''unknown''
     | Some h \<Rightarrow> (let first = takeWhile (\<lambda>c. c \<noteq> CHR '','') h
                 in if first = [] then ''unknown'' else first))"

text \<open>
  Expiry, usage cap and IP list, in this order; the result is the error response or
  the client IP.  \<open>now\<close> is \<^verbatim>\<open>new Date()\<close> in milliseconds.
\<close>

definition checkPolicy :: "SharedKey \<Rightarrow> nat \<Rightarrow> string option \<Rightarrow> ClientResponse + string" where
  "checkPolicy sharedKey now forwardedFor =
    (if (case sk_expiresAt sharedKey of None \<Rightarrow> False | Some expiresAt \<Rightarrow> expiresAt < now)
     then Inl (jsonError ''Access token has expired'' 401)
     else if (case sk_maxUsage sharedKey of
                None \<Rightarrow> False
              | Some maxUsage \<Rightarrow> maxUsage \<noteq> 0 \<and> sk_usageCount sharedKey \<ge> maxUsage)
     then Inl (jsonError ''Access token usage limit exceeded'' 429)
     else let clientIP = clientIPOf forwardedFor
          in if length (sk_allowedIPs sharedKey) > 0 \<and> clientIP \<notin> set (sk_allowedIPs sharedKey)
             then Inl (jsonError ''IP address not allowed'' 403)
             else Inr clientIP)"

definition rateLimitedResponse :: "SharedKey \<Rightarrow> RateLimitResult \<Rightarrow> nat \<Rightarrow> ClientResponse" where
  "rateLimitedResponse sharedKey rateLimitResult now =
     \<lparr>cr_status = 429, cr_statusText = [],
      cr_headers =
        [(''X-RateLimit-Limit'', showInt (sk_rateLimit sharedKey)),
         (''X-RateLimit-Remaining'', showInt (rl_remaining rateLimitResult)),
         (''X-RateLimit-Reset'', showInt (rl_resetAt rateLimitResult))],
      cr_body = JsonBody (JObj [(''error'', JStr ''Rate limit exceeded''),
                                (''retryAfter'',
                                   JNum (rl_resetAt rateLimitResult - int (now div 1000)))])\<rparr>"

text \<open>
  \<^verbatim>\<open>db.apiKey.findMany\<close> with the owner's keys or the keys of the team of the
  token's key, the active ones; a filter \<^verbatim>\<open>teamId: null\<close> matches the keys without
  a team.
\<close>

definition availableApiKeys :: "Db \<Rightarrow> SharedKey \<Rightarrow> ApiKey \<Rightarrow> ApiKey list" where
  "availableApiKeys d sharedKey linked =
     filter (\<lambda>k. (ak_userId k = sk_ownerId sharedKey \<or> ak_teamId k = ak_teamId linked)
                 \<and> ak_isActive k) (apiKeys d)"

text \<open>
  The router: the best provider and the keys in the order they will be tried;
  \<open>linked\<close> is \<^verbatim>\<open>sharedKey.apiKey\<close>.
\<close>

definition bestProviderFor ::
  "BodyModel \<Rightarrow> ApiKey \<Rightarrow> ApiKey list \<Rightarrow> Redis \<Rightarrow> Exn + ApiProvider option" where
  "bestProviderFor requestedModel linked available r =
    (case requestedModel of
       Model model \<Rightarrow> getFastestProvider model (map ak_provider available) r
     | NoModel \<Rightarrow> Inr (Some (ak_provider linked))
     | BodyNull \<Rightarrow> Inl TypeError)"

definition sortedApiKeys ::
  "BodyModel \<Rightarrow> SharedKey \<Rightarrow> ApiKey \<Rightarrow> ApiKey list \<Rightarrow> Redis \<Rightarrow> Exn + ApiKey list" where
  "sortedApiKeys requestedModel sharedKey linked available r =
    (case bestProviderFor requestedModel linked available r of
       Inl e \<Rightarrow> Inl e
     | Inr bestProvider \<Rightarrow>
         Inr (sortBy (compareApiKeys bestProvider (sk_apiKeyId sharedKey)) available))"

text \<open>The upstream call for one key.\<close>

definition upstreamRequest :: "ProxyRequest \<Rightarrow> string \<Rightarrow> ApiProvider \<Rightarrow> string \<Rightarrow> FetchRequest" where
  "upstreamRequest request baseUrl provider actualApiKey =
    \<lparr>fr_url = baseUrl @ ''/'' @ joinWith ''/'' (rq_path request),
     fr_method = rq_method request,
     fr_headers =
       [(''Authorization'', ''Bearer '' @ actualApiKey),
        (''Content-Type'',
           (case rq_contentType request of
              None \<Rightarrow> ''application/json''
            | Some t \<Rightarrow> if t = [] then ''application/json'' else t))]
       @ (if provider = ANTHROPIC
          then [(''x-api-key'', actualApiKey), (''anthropic-version'', ''2023-06-01'')] else [])
       @ (if provider = BYTEZ
          then (case rq_providerKey request of
                  None \<Rightarrow> []
                | Some k \<Rightarrow> if k = [] then [] else [(''Provider-Key'', k)])
          else []),
     fr_body = (if rq_method request \<noteq> ''GET'' \<and> rq_method request \<noteq> ''HEAD''
                then Some (rq_text request) else None)\<rparr>"

text \<open>\<^verbatim>\<open>response.ok\<close>: the status is in the range 200 to 299.\<close>

definition responseOk :: "UpstreamResponse \<Rightarrow> bool" where
  "responseOk response = (200 \<le> ur_status response \<and> ur_status response \<le> 299)"

text \<open>
  The fallback loop.  Its variables are the state; \<open>ls_calls\<close> lists the upstream calls
  issued so far.  The result is the state at the end, with the exception when one left
  the loop (\<^verbatim>\<open>decrypt\<close> is outside the inner \<^verbatim>\<open>try\<close>).
\<close>

record LoopState =
  ls_proxyResponse :: "UpstreamResponse option"
  ls_selectedApiKey :: ApiKey
  ls_finalProvider :: ApiProvider
  ls_calls :: "FetchRequest list"

fun tryProviders :: "ProxyEnv \<Rightarrow> ProxyRequest \<Rightarrow> ApiKey list \<Rightarrow> LoopState \<Rightarrow> Exn option \<times> LoopState" where
  "tryProviders env request [] st = (None, st)"
| "tryProviders env request (apiKey # rest) st =
    (let st1 = st\<lparr>ls_selectedApiKey := apiKey, ls_finalProvider := ak_provider apiKey\<rparr>
     in case PROVIDER_ENDPOINTS (ak_provider apiKey) of
          None \<Rightarrow> tryProviders env request rest st1
        | Some baseUrl \<Rightarrow>
            (case decrypt (pe_lib env) (pe_encryptionKey env) (ak_encryptedKey apiKey) of
               Inl e \<Rightarrow> (Some e, st1)
             | Inr actualApiKey \<Rightarrow>
                 (let call = upstreamRequest request baseUrl (ak_provider apiKey) actualApiKey;
                      st2 = st1\<lparr>ls_calls := ls_calls st1 @ [call]\<rparr>
                  in case pe_fetch env call of
                       FetchThrows \<Rightarrow> tryProviders env request rest st2
                     | FetchReturns response \<Rightarrow>
                         (let st3 = st2\<lparr>ls_proxyResponse := Some response\<rparr>
                          in if responseOk response then (None, st3)
                             else tryProviders env request rest st3))))"

text \<open>What the handler gives back: the response, the upstream calls it made, the stores.\<close>

record ProxyResult =
  pr_response :: ClientResponse
  pr_calls :: "FetchRequest list"
  pr_world :: World

definition internalError :: ClientResponse where
  "internalError = jsonError ''Internal proxy error'' 500"

text \<open>
  After the loop: the 502 when no response was received, otherwise the latency sample
  for a response that is ok, the usage log and the two counters (written without
  waiting, failures ignored), and the response forwarded with the proxy's headers.
\<close>

definition setHeader :: "string \<Rightarrow> string \<Rightarrow> (string \<times> string) list \<Rightarrow> (string \<times> string) list" where
  "setHeader name v headers = AList.update name v headers"

definition recordUsage ::
  "ProxyEnv \<Rightarrow> ProxyRequest \<Rightarrow> SharedKey \<Rightarrow> string \<Rightarrow> LoopState \<Rightarrow> UpstreamResponse \<Rightarrow> Db \<Rightarrow> Db" where
  "recordUsage env request sharedKey clientIP st response d =
    d\<lparr>usageLogs := usageLogs d @
         [\<lparr>ul_apiKeyId = ak_id (ls_selectedApiKey st),
           ul_sharedKeyId = sk_id sharedKey,
           ul_userId = sk_ownerId sharedKey,
           ul_provider = ls_finalProvider st,
           ul_model = (case rq_model request of Model m \<Rightarrow> Some m | _ \<Rightarrow> None),
           ul_endpoint = joinWith ''/'' (rq_path request),
           ul_method = rq_method request,
           ul_statusCode = ur_status response,
           ul_tokens = (if responseOk response then pe_tokenUsage env response else JNull),
           ul_latencyMs = int (pe_end env) - int (pe_start env),
           ul_ipAddress = clientIP,
           ul_userAgent = rq_userAgent request\<rparr>],
      sharedKeys := updateFirst (\<lambda>s. sk_id s = sk_id sharedKey)
         (\<lambda>s. s\<lparr>sk_usageCount := sk_usageCount s + 1, sk_lastUsedAt := Some (pe_end env)\<rparr>)
         (sharedKeys d),
      apiKeys := updateFirst (\<lambda>k. ak_id k = ak_id (ls_selectedApiKey st))
         (\<lambda>k. k\<lparr>ak_lastUsedAt := Some (pe_end env)\<rparr>) (apiKeys d)\<rparr>"

definition forwardResponse ::
  "ProxyEnv \<Rightarrow> SharedKey \<Rightarrow> RateLimitResult \<Rightarrow> LoopState \<Rightarrow> UpstreamResponse \<Rightarrow> ClientResponse" where
  "forwardResponse env sharedKey rateLimitResult st response =
    \<lparr>cr_status = ur_status response,
     cr_statusText = ur_statusText response,
     cr_headers =
       setHeader ''X-RateLimit-Remaining'' (showInt (rl_remaining rateLimitResult))
         (setHeader ''X-RateLimit-Limit'' (showInt (sk_rateLimit sharedKey))
           (setHeader ''X-Feen-Provider'' (providerName (ls_finalProvider st))
             (setHeader ''X-Feen-Latency'' (showInt (int (pe_end env) - int (pe_start env)))
               (ur_headers response)))),
     cr_body = StreamBody (ur_body response)\<rparr>"

definition finishProxy ::
  "ProxyEnv \<Rightarrow> ProxyRequest \<Rightarrow> SharedKey \<Rightarrow> string \<Rightarrow> RateLimitResult \<Rightarrow>
   Exn option \<times> LoopState \<Rightarrow> World \<Rightarrow> ProxyResult" where
  "finishProxy env request sharedKey clientIP rateLimitResult loop w =
    (case loop of
       (Some e, st) \<Rightarrow> \<lparr>pr_response = internalError, pr_calls = ls_calls st, pr_world = w\<rparr>
     | (None, st) \<Rightarrow>
         (case ls_proxyResponse st of
            None \<Rightarrow>
              \<lparr>pr_response = jsonError ''All available providers failed'' 502,
               pr_calls = ls_calls st, pr_world = w\<rparr>
          | Some response \<Rightarrow>
              (case (if responseOk response
                     then recordLatency (ls_finalProvider st)
                            (int (pe_end env) - int (pe_start env)) (w_redis w)
                     else Inr (w_redis w)) of
                 Inl e \<Rightarrow> \<lparr>pr_response = internalError, pr_calls = ls_calls st, pr_world = w\<rparr>
               | Inr r \<Rightarrow>
                   \<lparr>pr_response = forwardResponse env sharedKey rateLimitResult st response,
                    pr_calls = ls_calls st,
                    pr_world = \<lparr>w_db = recordUsage env request sharedKey clientIP st response (w_db w),
                                w_redis = r\<rparr>\<rparr>)))"

text \<open>
  \<^verbatim>\<open>handleProxy(request, { params })\<close>.  Every exception is caught at the end and
  answered with status 500; what was written before it stays written.
\<close>

definition handleProxy :: "ProxyEnv \<Rightarrow> ProxyRequest \<Rightarrow> World \<Rightarrow> ProxyResult" where
  "handleProxy env request w =
    (case authenticate (pe_lib env) (w_db w) (rq_authorization request) of
       Inl response \<Rightarrow> \<lparr>pr_response = response, pr_calls = [], pr_world = w\<rparr>
     | Inr sharedKey \<Rightarrow>
    (case checkPolicy sharedKey (pe_now env) (rq_forwardedFor request) of
       Inl response \<Rightarrow> \<lparr>pr_response = response, pr_calls = [], pr_world = w\<rparr>
     | Inr clientIP \<Rightarrow>
    (case checkRateLimit (sharedRateLimitKey (sk_id sharedKey)) (sk_rateLimit sharedKey) 60
            (pe_now env div 1000) (w_redis w) of
       (rateLimitResult, r1) \<Rightarrow>
    (let w1 = w\<lparr>w_redis := r1\<rparr>
     in if \<not> rl_allowed rateLimitResult
        then \<lparr>pr_response = rateLimitedResponse sharedKey rateLimitResult (pe_now env),
              pr_calls = [], pr_world = w1\<rparr>
        else
    (case find (\<lambda>k. ak_id k = sk_apiKeyId sharedKey) (apiKeys (w_db w)) of
       None \<Rightarrow> \<lparr>pr_response = internalError, pr_calls = [], pr_world = w1\<rparr>
     | Some linked \<Rightarrow>
    (case sortedApiKeys (rq_model request) sharedKey linked
            (availableApiKeys (w_db w) sharedKey linked) r1 of
       Inl e \<Rightarrow> \<lparr>pr_response = internalError, pr_calls = [], pr_world = w1\<rparr>
     | Inr [] \<Rightarrow> \<lparr>pr_response = internalError, pr_calls = [], pr_world = w1\<rparr>
     | Inr (first # rest) \<Rightarrow>
         finishProxy env request sharedKey clientIP rateLimitResult
           (tryProviders env request (first # rest)
              \<lparr>ls_proxyResponse = None, ls_selectedApiKey = first,
               ls_finalProvider = ak_provider first, ls_calls = []\<rparr>)
           w1))))))"

text \<open>
  A second key of the same owner, stored before the first; a request without a model and
  one that names a model; providers that answer 404 at OpenAI and 200 at Together, and
  providers that answer 503 everywhere.
\<close>

definition sampleTogetherKey :: ApiKey where
  "sampleTogetherKey =
    \<lparr>ak_id = ''key0'', ak_userId = ''u1'', ak_teamId = None, ak_provider = TOGETHER,
     ak_encryptedKey = ''QUFBQUFBQUFBQUFBQUFBQVRUVFRUVFRUVFRUVFRUVFRoZWxsbw=='',
     ak_isActive = True, ak_lastUsedAt = None\<rparr>"

definition sampleWorldTwoKeys :: World where
  "sampleWorldTwoKeys =
    \<lparr>w_db = \<lparr>sharedKeys = [sampleSharedKey], apiKeys = [sampleTogetherKey, sampleApiKey],
              usageLogs = [], auditLogs = []\<rparr>,
     w_redis = \<lparr>reachable = True, entries = []\<rparr>\<rparr>"

definition sampleWorldWith :: "(SharedKey \<Rightarrow> SharedKey) \<Rightarrow> World" where
  "sampleWorldWith change =
    \<lparr>w_db = \<lparr>sharedKeys = [change sampleSharedKey], apiKeys = [sampleApiKey],
              usageLogs = [], auditLogs = []\<rparr>,
     w_redis = \<lparr>reachable = True, entries = []\<rparr>\<rparr>"

definition sampleRequest :: ProxyRequest where
  "sampleRequest =
    \<lparr>rq_method = ''POST'', rq_authorization = Some ''Bearer feen_old'',
     rq_forwardedFor = Some ''192.168.1.7'', rq_contentType = Some ''application/json'',
     rq_providerKey = None, rq_userAgent = None, rq_text = ''{}'', rq_model = NoModel,
     rq_path = [''v1'', ''chat'', ''completions'']\<rparr>"

definition sampleModelRequest :: ProxyRequest where
  "sampleModelRequest =
     sampleRequest\<lparr>rq_text := ''{ model: claude-3-opus-20240229 }'',
                    rq_model := Model ''claude-3-opus-20240229''\<rparr>"

definition sampleAnswer :: "int \<Rightarrow> FetchResult" where
  "sampleAnswer status =
     FetchReturns \<lparr>ur_status = status, ur_statusText = [], ur_headers = [], ur_body = ''{}''\<rparr>"

definition sampleFetch :: "FetchRequest \<Rightarrow> FetchResult" where
  "sampleFetch call =
    (if startsWith (fr_url call) ''https://api.openai.com'' then sampleAnswer 404
     else if startsWith (fr_url call) ''https://api.together.xyz'' then sampleAnswer 200
     else FetchThrows)"

definition sampleEnv :: ProxyEnv where
  "sampleEnv =
    \<lparr>pe_lib = standInLib, pe_encryptionKey = standInKey, pe_fetch = sampleFetch,
     pe_tokenUsage = (\<lambda>response. JNull),
     pe_start = 1700000000000, pe_now = 1700000000001, pe_end = 1700000000120\<rparr>"

definition sampleEnvDown :: ProxyEnv where
  "sampleEnvDown = sampleEnv\<lparr>pe_fetch := (\<lambda>call. sampleAnswer 503)\<rparr>"

text \<open>
  One turn of the fallback loop, by its outcome: the provider has no endpoint and the
  turn is skipped, \<^verbatim>\<open>decrypt\<close> throws and the loop is left, \<^verbatim>\<open>fetch\<close> throws, or
  \<^verbatim>\<open>fetch\<close> returns a response.  A turn has failed when the loop goes on to the next
  key after it.
\<close>

datatype Attempt = Skipped | Crashed Exn | Threw | Answered UpstreamResponse

definition attempt :: "ProxyEnv \<Rightarrow> ProxyRequest \<Rightarrow> ApiKey \<Rightarrow> Attempt" where
  "attempt env request apiKey =
    (case PROVIDER_ENDPOINTS (ak_provider apiKey) of
       None \<Rightarrow> Skipped
     | Some baseUrl \<Rightarrow>
         (case decrypt (pe_lib env) (pe_encryptionKey env) (ak_encryptedKey apiKey) of
            Inl e \<Rightarrow> Crashed e
          | Inr actualApiKey \<Rightarrow>
              (case pe_fetch env
                      (upstreamRequest request baseUrl (ak_provider apiKey) actualApiKey) of
                 FetchThrows \<Rightarrow> Threw
               | FetchReturns response \<Rightarrow> Answered response)))"

fun failed :: "Attempt \<Rightarrow> bool" where
  "failed Skipped = True"
| "failed (Crashed e) = False"
| "failed Threw = True"
| "failed (Answered response) = (\<not> responseOk response)"

fun answers :: "Attempt list \<Rightarrow> UpstreamResponse list" where
  "answers [] = []"
| "answers (Answered response # rest) = response # answers rest"
| "answers (a # rest) = answers rest"

chapter \<open>Verification\<close>

section \<open>Scope check\<close>

lemma findRequiredScopes_empty_iff:
  "list_all (\<lambda>row. snd row \<noteq> []) table \<Longrightarrow>
   findRequiredScopes table e = [] \<longleftrightarrow> list_all (\<lambda>row. \<not> includesStr e (fst row)) table"
proof (induction table)
  case Nil
  then show ?case by simp
next
  case (Cons row table)
  obtain pattern scopes where row: "row = (pattern, scopes)" by (cases row)
  have sw: "startsWith e pattern \<Longrightarrow> includesStr e pattern"
    by (cases e) (auto simp: neq_Nil_conv elim: startsWith.elims)
  from Cons show ?case unfolding row using sw by auto
qed

lemma EndpointScopes_nonempty: "list_all (\<lambda>row. snd row \<noteq> []) EndpointScopes"
  by (simp add: EndpointScopes_def)

text \<open>
  C8.  The scope check looks the normalised path (one leading slash removed, the query
  string cut off) up in the endpoint table, a row matching when its pattern occurs in
  the path.  When the lookup yields a non-empty required set, access is allowed exactly
  when the token's scopes hold the wildcard \<open>*\<close> or an element of the required set;
  a path that matches no row yields the empty set and is permitted.
\<close>

theorem hasRequiredScope_allowed:
  "requiredScopes (hasRequiredScope tokenScopes endpoint method) =
     findRequiredScopes EndpointScopes (normalizeEndpoint endpoint)
   \<and> (findRequiredScopes EndpointScopes (normalizeEndpoint endpoint) \<noteq> [] \<longrightarrow>
        allowed (hasRequiredScope tokenScopes endpoint method) =
          (''*'' \<in> set tokenScopes \<or>
           (\<exists>s \<in> set (findRequiredScopes EndpointScopes (normalizeEndpoint endpoint)).
              scopeValue s \<in> set tokenScopes)))
   \<and> (findRequiredScopes EndpointScopes (normalizeEndpoint endpoint) = [] \<longrightarrow>
        allowed (hasRequiredScope tokenScopes endpoint method))
   \<and> ((findRequiredScopes EndpointScopes (normalizeEndpoint endpoint) = []) =
        list_all (\<lambda>row. \<not> includesStr (normalizeEndpoint endpoint) (fst row)) EndpointScopes)
   \<and> normalizeEndpoint (CHR ''/'' # p @ CHR ''?'' # q) = takeWhile (\<lambda>c. c \<noteq> CHR ''?'') p
   \<and> normalizeEndpoint (p @ CHR ''?'' # q) = normalizeEndpoint p"
proof -
  define required where "required = findRequiredScopes EndpointScopes (normalizeEndpoint endpoint)"
  have r: "requiredScopes (hasRequiredScope tokenScopes endpoint method) = required"
    by (simp add: hasRequiredScope_def Let_def required_def)
  have a: "required \<noteq> [] \<longrightarrow>
        allowed (hasRequiredScope tokenScopes endpoint method) =
          (''*'' \<in> set tokenScopes \<or> (\<exists>s \<in> set required. scopeValue s \<in> set tokenScopes))"
    by (simp add: hasRequiredScope_def Let_def required_def list_ex_iff)
  have e: "required = [] \<longrightarrow> allowed (hasRequiredScope tokenScopes endpoint method)"
    by (simp add: hasRequiredScope_def Let_def required_def)
  have m: "(required = []) =
        list_all (\<lambda>row. \<not> includesStr (normalizeEndpoint endpoint) (fst row)) EndpointScopes"
    unfolding required_def by (rule findRequiredScopes_empty_iff [OF EndpointScopes_nonempty])
  have n1: "normalizeEndpoint (CHR ''/'' # p @ CHR ''?'' # q) = takeWhile (\<lambda>c. c \<noteq> CHR ''?'') p"
    by (simp add: normalizeEndpoint_def takeWhile_tail)
  have n2: "normalizeEndpoint (p @ CHR ''?'' # q) = normalizeEndpoint p"
    by (cases p) (simp_all add: normalizeEndpoint_def takeWhile_tail)
  from r a e m n1 n2 show ?thesis unfolding required_def by blast
qed

lemma findRequiredScopes_chat_example: "findRequiredScopes EndpointScopes (normalizeEndpoint ''/v1/chat/completions?stream=1'') = [CHAT_WRITE, SCOPE_ALL]"
  by (simp add: EndpointScopes_def normalizeEndpoint_def)

lemma findRequiredScopes_unknown_example: "findRequiredScopes EndpointScopes (normalizeEndpoint ''/v2/unknown'') = []"
  by (simp add: EndpointScopes_def normalizeEndpoint_def)

theorem hasRequiredScope_allowed_witness:
  "findRequiredScopes EndpointScopes (normalizeEndpoint ''/v1/chat/completions?stream=1'')
     = [CHAT_WRITE, SCOPE_ALL]
   \<and> allowed (hasRequiredScope [''chat:write''] ''/v1/chat/completions?stream=1'' ''POST'')
   \<and> allowed (hasRequiredScope [''*''] ''/v1/chat/completions?stream=1'' ''POST'')
   \<and> \<not> allowed (hasRequiredScope [''models:list''] ''/v1/chat/completions?stream=1'' ''POST'')
   \<and> findRequiredScopes EndpointScopes (normalizeEndpoint ''/v2/unknown'') = []
   \<and> allowed (hasRequiredScope [] ''/v2/unknown'' ''GET'')"
  using hasRequiredScope_allowed [of "[''chat:write'']" "''/v1/chat/completions?stream=1''" "''POST''"]
        hasRequiredScope_allowed [of "[''*'']" "''/v1/chat/completions?stream=1''" "''POST''"]
        hasRequiredScope_allowed [of "[''models:list'']" "''/v1/chat/completions?stream=1''" "''POST''"]
        hasRequiredScope_allowed [of "[]" "''/v2/unknown''" "''GET''"]
  unfolding findRequiredScopes_chat_example findRequiredScopes_unknown_example by simp

section \<open>Rate limiter\<close>

lemma redis_lookup_put [simp]:
  "redis_lookup (redis_put k e r) k' = (if k' = k then Some e else redis_lookup r k')"
  by (simp add: redis_lookup_def redis_put_def update_conv')

lemma reachable_put [simp]: "reachable (redis_put k e r) = reachable r"
  by (simp add: redis_put_def)

lemma windowKey_shared:
  "windowKey (sharedRateLimitKey tokenId) 60 now =
     ''ratelimit:shared:'' @ tokenId @ '':minute:'' @ showNat (now div 60)"
  by (simp add: windowKey_def sharedRateLimitKey_def)

text \<open>
  C5 (amended).  A rate-limit check with limit \<open>L\<close> over the 60-second window increments
  the counter keyed by \<open>ratelimit:shared:<token id>:minute:<floor(now/60)>\<close> (the key
  handed over is \<open>shared:<token id>:minute\<close>, so the window index follows the word
  \<open>minute\<close>), sets the time to live to 60 exactly when the counter becomes 1, and
  returns allowed iff the counter after the increment is at most \<open>L\<close>, remaining
  \<open>max 0 (L - counter)\<close> and reset time \<open>(floor(now/60) + 1) * 60\<close>; no other key
  changes.  When the store is unreachable the check lets the request pass with
  remaining \<open>L\<close> and writes nothing.
\<close>

theorem checkRateLimit_fixed_window:
  assumes k: "k = ''ratelimit:shared:'' @ tokenId @ '':minute:'' @ showNat (now div 60)"
    and run: "checkRateLimit (sharedRateLimitKey tokenId) limit 60 now r = (res, r')"
  shows "(reachable r \<and> counterAt r k = Some c \<longrightarrow>
            counterAt r' k = Some (c + 1)
          \<and> ttlAt r' k = (if c + 1 = 1 then Some 60 else ttlAt r k)
          \<and> rl_allowed res = (c + 1 \<le> limit)
          \<and> rl_remaining res = max 0 (limit - (c + 1))
          \<and> rl_resetAt res = (int (now div 60) + 1) * 60
          \<and> (\<forall>k'. k' \<noteq> k \<longrightarrow> redis_lookup r' k' = redis_lookup r k'))
       \<and> (\<not> reachable r \<longrightarrow>
            rl_allowed res \<and> rl_remaining res = limit \<and> r' = r)"
proof -
  have wk: "windowKey (sharedRateLimitKey tokenId) 60 now = k"
    unfolding k by (rule windowKey_shared)
  have down: "\<not> reachable r \<longrightarrow> rl_allowed res \<and> rl_remaining res = limit \<and> r' = r"
    using run by (auto simp: checkRateLimit_def wk redis_incr_def Let_def)
  have up: "reachable r \<and> counterAt r k = Some c \<longrightarrow>
            counterAt r' k = Some (c + 1)
          \<and> ttlAt r' k = (if c + 1 = 1 then Some 60 else ttlAt r k)
          \<and> rl_allowed res = (c + 1 \<le> limit)
          \<and> rl_remaining res = max 0 (limit - (c + 1))
          \<and> rl_resetAt res = (int (now div 60) + 1) * 60
          \<and> (\<forall>k'. k' \<noteq> k \<longrightarrow> redis_lookup r' k' = redis_lookup r k')"
  proof (intro impI, elim conjE)
    assume re: "reachable r" and c: "counterAt r k = Some c"
    show "counterAt r' k = Some (c + 1)
          \<and> ttlAt r' k = (if c + 1 = 1 then Some 60 else ttlAt r k)
          \<and> rl_allowed res = (c + 1 \<le> limit)
          \<and> rl_remaining res = max 0 (limit - (c + 1))
          \<and> rl_resetAt res = (int (now div 60) + 1) * 60
          \<and> (\<forall>k'. k' \<noteq> k \<longrightarrow> redis_lookup r' k' = redis_lookup r k')"
    proof (cases "redis_lookup r k")
      case None
      with c have c0: "c = 0" by (simp add: counterAt_def)
      from run None re show ?thesis unfolding c0
        by (auto simp: checkRateLimit_def wk redis_incr_def redis_expire_def Let_def
              counterAt_def ttlAt_def)
    next
      case (Some e)
      with c have v: "re_value e = RInt c"
        by (auto simp: counterAt_def split: RedisValue.splits)
      from run Some re v show ?thesis
        by (auto simp: checkRateLimit_def wk redis_incr_def redis_expire_def Let_def
              counterAt_def ttlAt_def)
    qed
  qed
  from up down show ?thesis by blast
qed

lemma showNat_2: "showNat 2 = ''2''"
  by (simp add: showNat.simps digitChar_def)

lemma checkRateLimit_first_request:
  "checkRateLimit (sharedRateLimitKey ''tok1'') 2 60 125 \<lparr>reachable = True, entries = []\<rparr> =
    (\<lparr>rl_allowed = True, rl_remaining = 1, rl_resetAt = 180\<rparr>,
     \<lparr>reachable = True,
      entries = [(''ratelimit:shared:tok1:minute:2'', \<lparr>re_value = RInt 1, re_ttl = Some 60\<rparr>)]\<rparr>)"
  by (simp add: checkRateLimit_def windowKey_def sharedRateLimitKey_def showNat_2 redis_incr_def
        redis_expire_def redis_lookup_def redis_put_def Let_def)

text \<open>
  C5 as stated names the key \<open>ratelimit:shared:<token id>:<floor(now/60)>\<close>.  For the
  token \<open>tok1\<close> at second 125 that key stays untouched; the counter that moves is
  \<open>ratelimit:shared:tok1:minute:2\<close>.
\<close>

theorem checkRateLimit_key_counterexample:
  "counterAt (snd (checkRateLimit (sharedRateLimitKey ''tok1'') 2 60 125
                     \<lparr>reachable = True, entries = []\<rparr>)) ''ratelimit:shared:tok1:2'' = Some 0
   \<and> counterAt (snd (checkRateLimit (sharedRateLimitKey ''tok1'') 2 60 125
                     \<lparr>reachable = True, entries = []\<rparr>)) ''ratelimit:shared:tok1:minute:2'' = Some 1"
  by (simp add: checkRateLimit_first_request counterAt_def redis_lookup_def)

theorem checkRateLimit_fixed_window_witness:
  "rl_allowed (fst (checkRateLimit (sharedRateLimitKey ''tok1'') 2 60 125 \<lparr>reachable = True, entries = []\<rparr>))
   \<and> rl_remaining (fst (checkRateLimit (sharedRateLimitKey ''tok1'') 2 60 125 \<lparr>reachable = True, entries = []\<rparr>)) = 1
   \<and> rl_resetAt (fst (checkRateLimit (sharedRateLimitKey ''tok1'') 2 60 125 \<lparr>reachable = True, entries = []\<rparr>)) = 180
   \<and> ttlAt (snd (checkRateLimit (sharedRateLimitKey ''tok1'') 2 60 125 \<lparr>reachable = True, entries = []\<rparr>))
        ''ratelimit:shared:tok1:minute:2'' = Some 60
   \<and> rl_allowed (fst (checkRateLimit (sharedRateLimitKey ''tok1'') 2 60 125 \<lparr>reachable = False, entries = []\<rparr>))
   \<and> rl_remaining (fst (checkRateLimit (sharedRateLimitKey ''tok1'') 2 60 125 \<lparr>reachable = False, entries = []\<rparr>)) = 2"
proof -
  have k: "''ratelimit:shared:tok1:minute:2'' = ''ratelimit:shared:'' @ ''tok1'' @ '':minute:'' @ showNat (125 div 60)"
    by (simp add: showNat_2)
  have c0: "counterAt \<lparr>reachable = True, entries = []\<rparr> ''ratelimit:shared:tok1:minute:2'' = Some 0"
    by (simp add: counterAt_def redis_lookup_def)
  note up = checkRateLimit_fixed_window [where limit = 2 and r = "\<lparr>reachable = True, entries = []\<rparr>" and c = 0, OF k surjective_pairing]
  note down = checkRateLimit_fixed_window [where limit = 2 and r = "\<lparr>reachable = False, entries = []\<rparr>" and c = 0, OF k surjective_pairing]
  from up down c0 show ?thesis by simp
qed

section \<open>Base64\<close>

lemma indexOf_nth: "distinct xs \<Longrightarrow> i < length xs \<Longrightarrow> indexOf (xs ! i) xs = Some i"
proof (induction xs arbitrary: i)
  case Nil
  then show ?case by simp
next
  case (Cons x xs)
  show ?case
  proof (cases i)
    case 0
    then show ?thesis by simp
  next
    case (Suc j)
    with Cons.prems have "xs ! j \<in> set xs" "x \<notin> set xs" by auto
    then have "xs ! j \<noteq> x" by auto
    with Suc Cons show ?thesis by simp
  qed
qed

lemma base64Alphabet_distinct: "distinct base64Alphabet"
  by (simp add: base64Alphabet_def)

lemma base64Alphabet_length: "length base64Alphabet = 64"
  by (simp add: base64Alphabet_def)

lemma base64Alphabet_plain:
  "CHR ''='' \<notin> set base64Alphabet" "CHR ''-'' \<notin> set base64Alphabet" "CHR ''_'' \<notin> set base64Alphabet"
  by (simp_all add: base64Alphabet_def)

lemma unbase64_alphabet:
  assumes "i < 64"
  shows "unbase64 (base64Alphabet ! i) = Some i" and "base64Alphabet ! i \<noteq> CHR ''=''"
proof -
  from assms have m: "base64Alphabet ! i \<in> set base64Alphabet"
    by (simp add: base64Alphabet_length)
  with base64Alphabet_plain show "base64Alphabet ! i \<noteq> CHR ''=''" by metis
  from m base64Alphabet_plain have "base64Alphabet ! i \<noteq> CHR ''-''" "base64Alphabet ! i \<noteq> CHR ''_''"
    by metis+
  then show "unbase64 (base64Alphabet ! i) = Some i"
    using assms by (simp add: unbase64_def indexOf_nth base64Alphabet_distinct base64Alphabet_length)
qed

lemma byte_less: "(of_char (c::char) :: nat) < 256"
  by simp

lemma sextet_hi: "(a::nat) < 256 \<Longrightarrow> a div 4 < 64" by simp

lemma sextet_mid1: "(b::nat) < 256 \<Longrightarrow> (a mod 4) * 16 + b div 16 < 64"
proof -
  assume "b < 256"
  then have "b div 16 < 16" by simp
  moreover have "a mod 4 \<le> 3" using mod_less_divisor [of 4 a] by simp
  then have "(a mod 4) * 16 \<le> 3 * 16" by (rule mult_le_mono1)
  ultimately show ?thesis by simp
qed

lemma sextet_mid2: "(c::nat) < 256 \<Longrightarrow> (b mod 16) * 4 + c div 64 < 64"
proof -
  assume "c < 256"
  then have "c div 64 < 4" by simp
  moreover have "b mod 16 \<le> 15" using mod_less_divisor [of 16 b] by simp
  then have "(b mod 16) * 4 \<le> 15 * 4" by (rule mult_le_mono1)
  ultimately show ?thesis by simp
qed

lemma sextet_lo: "(c::nat) mod 64 < 64" by simp

lemma sextet_pad1: "((a::nat) mod 4) * 16 < 64"
  using sextet_mid1 [of 0 a] by simp

lemma sextet_pad2: "((b::nat) mod 16) * 4 < 64"
  using sextet_mid2 [of 0 b] by simp

lemma join1: "(b::nat) < 256 \<Longrightarrow> (a div 4) * 4 + ((a mod 4) * 16 + b div 16) div 16 = a"
  by simp

lemma join2:
  "(b::nat) < 256 \<Longrightarrow> (c::nat) < 256 \<Longrightarrow>
   (((a mod 4) * 16 + b div 16) mod 16) * 16 + ((b mod 16) * 4 + c div 64) div 4 = b"
proof -
  assume "b < 256" "c < 256"
  then have "b div 16 < 16" "c div 64 < 4" by simp_all
  then show ?thesis by simp
qed

lemma join3: "(c::nat) < 256 \<Longrightarrow> (((b mod 16) * 4 + c div 64) mod 4) * 64 + c mod 64 = c"
  by simp

lemma join1_pad: "((a::nat) div 4) * 4 + ((a mod 4) * 16) div 16 = a"
  by simp

lemma join2_pad:
  "(b::nat) < 256 \<Longrightarrow> (((a mod 4) * 16 + b div 16) mod 16) * 16 + ((b mod 16) * 4) div 4 = b"
  using join2 [of b 0 a] by simp

lemma sextets_Cons_alphabet:
  "i < 64 \<Longrightarrow> sextets (base64Alphabet ! i # s) = i # sextets s"
  by (simp add: sextets_def unbase64_alphabet map_filter_simps)

lemma sextets_pad: "sextets (CHR ''='' # s) = []" "sextets [] = []"
  by (simp_all add: sextets_def map_filter_simps)

lemma decodeGroups_three:
  "decodeGroups (of_char a div 4 # ((of_char a mod 4) * 16 + of_char b div 16) #
                 ((of_char b mod 16) * 4 + of_char c div 64) # (of_char c mod 64) # ss)
   = a # b # c # decodeGroups ss"
  by (simp only: decodeGroups.simps join1 [OF byte_less] join2 [OF byte_less byte_less]
        join3 [OF byte_less] char_of_char append_Cons append_Nil)

lemma decodeGroups_two:
  "decodeGroups [of_char a div 4, (of_char a mod 4) * 16 + of_char b div 16, (of_char b mod 16) * 4]
   = [a, b]"
  by (simp only: decodeGroups.simps join1 [OF byte_less] join2_pad [OF byte_less] char_of_char)

lemma decodeGroups_one:
  "decodeGroups [of_char a div 4, (of_char a mod 4) * 16] = [a]"
  by (simp only: decodeGroups.simps join1_pad char_of_char)

lemma sextets_three:
  "sextets (encodeGroups base64Alphabet ''='' (a # b # c # rest)) =
     of_char a div 4 # ((of_char a mod 4) * 16 + of_char b div 16) #
     ((of_char b mod 16) * 4 + of_char c div 64) # (of_char c mod 64) #
     sextets (encodeGroups base64Alphabet ''='' rest)"
  by (simp only: encodeGroups.simps append_Cons append_Nil
        sextets_Cons_alphabet [OF sextet_hi [OF byte_less]]
        sextets_Cons_alphabet [OF sextet_mid1 [OF byte_less]]
        sextets_Cons_alphabet [OF sextet_mid2 [OF byte_less]]
        sextets_Cons_alphabet [OF sextet_lo])

lemma sextets_two:
  "sextets (encodeGroups base64Alphabet ''='' [a, b]) =
     [of_char a div 4, (of_char a mod 4) * 16 + of_char b div 16, (of_char b mod 16) * 4]"
  by (simp only: encodeGroups.simps append_Cons append_Nil sextets_pad
        sextets_Cons_alphabet [OF sextet_hi [OF byte_less]]
        sextets_Cons_alphabet [OF sextet_mid1 [OF byte_less]]
        sextets_Cons_alphabet [OF sextet_pad2])

lemma sextets_one:
  "sextets (encodeGroups base64Alphabet ''='' [a]) = [of_char a div 4, (of_char a mod 4) * 16]"
  by (simp only: encodeGroups.simps append_Cons append_Nil sextets_pad
        sextets_Cons_alphabet [OF sextet_hi [OF byte_less]]
        sextets_Cons_alphabet [OF sextet_pad1])

lemma decodeGroups_encodeGroups:
  "decodeGroups (sextets (encodeGroups base64Alphabet ''='' buf)) = buf"
proof (induction base64Alphabet "''=''" buf rule: encodeGroups.induct)
  case (1 a b c rest)
  then show ?case by (simp only: sextets_three decodeGroups_three)
next
  case (2 a b)
  show ?case by (simp only: sextets_two decodeGroups_two)
next
  case (3 a)
  show ?case by (simp only: sextets_one decodeGroups_one)
next
  case 4
  show ?case by (simp add: sextets_pad)
qed

lemma base64_roundtrip: "base64_decode (base64_encode buf) = buf"
  using decodeGroups_encodeGroups [of buf]
  by (simp add: base64_decode_def base64_encode_def)

section \<open>Vault encryption\<close>

lemma decrypt_delegates:
  "getEncryptionKey lib envKey = Inr key \<Longrightarrow>
   decrypt lib envKey blob =
     (case gcmOpen lib key (take 16 (base64_decode blob)) (take 16 (drop 16 (base64_decode blob)))
             (drop 32 (base64_decode blob)) of
        None \<Rightarrow> Inl CryptoError | Some decrypted \<Rightarrow> Inr decrypted)"
  by (simp add: decrypt_def Let_def IV_LENGTH_def TAG_LENGTH_def)

lemma base64_encode_Nil: "base64_encode [] = []"
  by (simp add: base64_encode_def)


lemma standIn_key: "getEncryptionKey standInLib standInKey = Inr ''0123456789abcdef0123456789abcdef''"
  by (simp add: getEncryptionKey_def standInKey_def)

lemma standIn_seal:
  "gcmSeal standInLib key iv plaintext = (plaintext, ''TTTTTTTTTTTTTTTT'')"
  by (simp add: standInLib_def numeral_eq_Suc)

lemma standIn_open:
  "gcmOpen standInLib key iv ''TTTTTTTTTTTTTTTT'' ciphertext = Some ciphertext"
  by (simp add: standInLib_def numeral_eq_Suc)

lemma blob_hello:
  "base64_encode ''AAAAAAAAAAAAAAAATTTTTTTTTTTTTTTThello'' =
     ''QUFBQUFBQUFBQUFBQUFBQVRUVFRUVFRUVFRUVFRUVFRoZWxsbw==''"
  by code_simp

lemma blob_hello_altered:
  "base64_decode ''QUFBQUFBQUFBQUFBQUFBQVRUVFRUVFRUVFRUVFRUVFRoZWxsbx=='' =
   base64_decode ''QUFBQUFBQUFBQUFBQUFBQVRUVFRUVFRUVFRUVFRUVFRoZWxsbw==''"
  by code_simp

lemma decrypt_same_bytes:
  "base64_decode blob' = base64_decode blob \<Longrightarrow> decrypt lib envKey blob' = decrypt lib envKey blob"
  by (simp add: decrypt_def Let_def split: sum.splits)



section \<open>Request signing and two-factor codes\<close>

lemma showNat_length_le: "0 < k \<Longrightarrow> n < 10 ^ k \<Longrightarrow> length (showNat n) \<le> k"
proof (induction n arbitrary: k rule: showNat.induct)
  case (1 n)
  show ?case
  proof (cases "n < 10")
    case True
    with "1.prems" show ?thesis by (subst showNat.simps) simp
  next
    case False
    with "1.prems" have k1: "1 < k" by (cases "k = 1") auto
    then obtain j where j: "k = Suc j" "0 < j" by (cases k) auto
    from "1.prems" j have "n div 10 < 10 ^ j"
      by (simp add: less_mult_imp_div_less mult.commute)
    with "1.IH" [OF False \<open>0 < j\<close>] have "length (showNat (n div 10)) \<le> j" by simp
    with False j show ?thesis by (subst showNat.simps) simp
  qed
qed

lemma generateTOTP_length: "length (generateTOTP lib secret timeStep) = 6"
proof -
  have "length (padStart 6 c (showNat (b mod 10 ^ 6))) = 6" for c and b :: nat
  proof -
    have "length (showNat (b mod 10 ^ 6)) \<le> 6"
      by (rule showNat_length_le) simp_all
    then show ?thesis by (simp add: padStart_def)
  qed
  then show ?thesis by (simp add: generateTOTP_def Let_def TOTP_DIGITS_def)
qed

lemma verifyTOTP_throws: "length code \<noteq> 6 \<Longrightarrow> verifyTOTP lib secret code now = Inl RangeError"
  by (simp add: verifyTOTP_def TOTP_WINDOW_def upto.simps timingSafeEqual_def generateTOTP_length Let_def)

text \<open>
  C10.  \<open>verifySignature\<close> hands the supplied signature and the expected digest, 64
  hexadecimal characters, to \<open>timingSafeEqual\<close>: where the call reaches the comparison
  (the timestamp is a number within the window and the nonce is new), a signature whose
  byte length is not 64 makes it throw, and one of 64 bytes makes it return a result.
  \<open>verifyTOTP\<close> throws for every code whose byte length is not 6, the length of each
  expected code, and returns a boolean for a code of 6 bytes.
\<close>

theorem timingSafeEqual_length_throws:
  assumes digest: "\<forall>key msg. length (hmacSha256hex lib key msg) = 64"
    and ts: "parseInt (sh_timestamp headers) = Some timestamp"
    and window: "\<bar>now - timestamp\<bar> \<le> 300"
    and fresh: "cache (tokenId @ '':'' @ sh_nonce headers) = None"
  shows "(length (sh_signature headers) \<noteq> 64 \<longrightarrow>
            fst (verifySignature lib headers method path body tokenId secret now cache)
              = Inl RangeError)
       \<and> (length (sh_signature headers) = 64 \<longrightarrow>
            (\<exists>r. fst (verifySignature lib headers method path body tokenId secret now cache)
              = Inr r))
       \<and> (length code \<noteq> 6 \<longrightarrow> verifyTOTP lib secret' code now' = Inl RangeError)
       \<and> (length code = 6 \<longrightarrow> (\<exists>b. verifyTOTP lib secret' code now' = Inr b))"
proof -
  have a: "length (sh_signature headers) \<noteq> 64 \<longrightarrow>
            fst (verifySignature lib headers method path body tokenId secret now cache)
              = Inl RangeError"
    using digest ts window fresh
    by (simp add: verifySignature_def SIGNATURE_VALIDITY_SECONDS_def Let_def
          generateSignature_def timingSafeEqual_def)
  have b: "length (sh_signature headers) = 64 \<longrightarrow>
            (\<exists>r. fst (verifySignature lib headers method path body tokenId secret now cache)
              = Inr r)"
    using digest ts window fresh
    by (simp add: verifySignature_def SIGNATURE_VALIDITY_SECONDS_def Let_def
          generateSignature_def timingSafeEqual_def)
  have c: "length code \<noteq> 6 \<longrightarrow> verifyTOTP lib secret' code now' = Inl RangeError"
    by (simp add: verifyTOTP_throws)
  have d: "length code = 6 \<longrightarrow> (\<exists>b. verifyTOTP lib secret' code now' = Inr b)"
    by (auto simp: verifyTOTP_def TOTP_WINDOW_def upto.simps timingSafeEqual_def generateTOTP_length Let_def)
  from a b c d show ?thesis by blast
qed


lemma cleanOldNonces_keeps:
  "cache key = Some timestamp \<Longrightarrow> now - 600 \<le> timestamp \<Longrightarrow>
   cleanOldNonces now cache key = Some timestamp"
  by (simp add: cleanOldNonces_def SIGNATURE_VALIDITY_SECONDS_def Let_def)

lemma verifySignature_keeps:
  assumes "cache key = Some timestamp" and "now - 600 \<le> timestamp"
  shows "snd (verifySignature lib headers method path body tokenId secret now cache) key
           = Some timestamp"
proof -
  have k: "tokenId @ '':'' @ sh_nonce headers \<noteq> key"
    if "cache (tokenId @ '':'' @ sh_nonce headers) = None"
    using that assms(1) by auto
  show ?thesis
    using assms k
    by (auto simp: verifySignature_def Let_def cleanOldNonces_keeps
          split: option.splits sum.splits)
qed

lemma verifyAll_keeps:
  "cache key = Some timestamp \<Longrightarrow> list_all (\<lambda>c. sc_now c - 600 \<le> timestamp) calls \<Longrightarrow>
   verifyAll lib calls cache key = Some timestamp"
proof (induction calls arbitrary: cache)
  case Nil
  then show ?case by simp
next
  case (Cons c calls)
  from Cons.prems have "snd (verifySignature lib (sc_headers c) (sc_method c) (sc_path c)
      (sc_body c) (sc_tokenId c) (sc_secret c) (sc_now c) cache) key = Some timestamp"
    by (intro verifySignature_keeps) simp_all
  with Cons show ?case by simp
qed

lemma verifySignature_replay:
  assumes "cache (tokenId @ '':'' @ sh_nonce headers) \<noteq> None"
    and "parseInt (sh_timestamp headers) = Some timestamp"
    and "\<bar>now - timestamp\<bar> \<le> 300"
  shows "verifySignature lib headers method path body tokenId secret now cache =
           (Inr \<lparr>valid = False, error = Some ''Nonce already used (replay attack detected)''\<rparr>,
            cache)"
  using assms by (simp add: verifySignature_def SIGNATURE_VALIDITY_SECONDS_def Let_def)

lemma verifySignature_failed_cases:
  assumes "verifySignature lib headers method path body tokenId secret now cache = (res, cache')"
    and "res = Inr \<lparr>valid = False, error = Some ''Invalid signature''\<rparr> \<or> res = Inl RangeError"
    and "parseInt (sh_timestamp headers) = Some timestamp"
  shows "\<bar>now - timestamp\<bar> \<le> 300"
    and "cache (tokenId @ '':'' @ sh_nonce headers) = None"
    and "cache' = cleanOldNonces now (cache(tokenId @ '':'' @ sh_nonce headers \<mapsto> timestamp))"
  using assms
  by (auto simp: verifySignature_def SIGNATURE_VALIDITY_SECONDS_def Let_def
        split: if_splits sum.splits)

lemma verifySignature_rejected:
  assumes "cache (tokenId @ '':'' @ sh_nonce headers) \<noteq> None"
  shows "\<exists>e. verifySignature lib headers method path body tokenId secret now cache =
           (Inr \<lparr>valid = False, error = Some e\<rparr>, cache)"
  using assms by (simp add: verifySignature_def Let_def split: option.splits)


lemma parseInt_1000: "parseInt ''1000'' = Some 1000"
  by (simp add: parseInt_def isSpace_def isDigit_def Let_def)

lemma parseInt_1200: "parseInt ''1200'' = Some 1200"
  by (simp add: parseInt_def isSpace_def isDigit_def Let_def)

lemma standIn_digest_length: "\<forall>key msg. length (hmacSha256hex standInLib key msg) = 64"
  by (auto simp: standInLib_def)

lemma standIn_wrong_signature:
  "replicate 64 (CHR ''x'') \<noteq> hmacSha256hex standInLib ''secret'' msg"
proof
  assume "replicate 64 (CHR ''x'') = hmacSha256hex standInLib ''secret'' msg"
  then have "hd (replicate 64 (CHR ''x'')) = hd (hmacSha256hex standInLib ''secret'' msg)"
    by simp
  then show False by (simp add: standInLib_def)
qed

lemma verifySignature_first_call_invalid:
  "fst (verifySignature standInLib
          \<lparr>sh_timestamp = ''1000'', sh_signature = replicate 64 (CHR ''x''), sh_nonce = ''n1''\<rparr>
          ''POST'' ''/api/proxy/v1/chat/completions'' None ''tok1'' ''secret'' 1000 Map.empty)
   = Inr \<lparr>valid = False, error = Some ''Invalid signature''\<rparr>"
  using standIn_digest_length standIn_wrong_signature
  by (simp add: verifySignature_def parseInt_1000 SIGNATURE_VALIDITY_SECONDS_def Let_def
        timingSafeEqual_def generateSignature_def)


theorem timingSafeEqual_length_throws_witness:
  "fst (verifySignature standInLib
          \<lparr>sh_timestamp = ''1000'', sh_signature = ''deadbeef'', sh_nonce = ''n1''\<rparr>
          ''POST'' ''/api/proxy/v1/chat/completions'' None ''tok1'' ''secret'' 1000 Map.empty)
     = Inl RangeError
   \<and> verifyTOTP standInLib ''JBSWY3DPEHPK3PXP'' ''12345'' 59 = Inl RangeError"
  using timingSafeEqual_length_throws [OF standIn_digest_length,
          of "\<lparr>sh_timestamp = ''1000'', sh_signature = ''deadbeef'', sh_nonce = ''n1''\<rparr>"
             1000 1000 Map.empty "''tok1''" "''POST''" "''/api/proxy/v1/chat/completions''" None
             "''secret''" "''12345''" "''JBSWY3DPEHPK3PXP''" 59]
  by (simp add: parseInt_1000)

section \<open>Token rotation\<close>

lemma globMatch_star_skip: "globMatch ps s \<Longrightarrow> globMatch (CHR ''*'' # ps) s"
  by (cases s) simp_all

lemma globMatch_star_any: "globMatch [CHR ''*''] s"
  by (induction s) simp_all

lemma globMatch_prefix: "globMatch (p @ ''*'') (p @ rest)"
proof (induction p)
  case Nil
  show ?case using globMatch_star_any by simp
next
  case (Cons a p)
  show ?case
  proof (cases "a = CHR ''*''")
    case True
    have "globMatch (CHR ''*'' # p @ ''*'') (p @ rest)"
      using Cons by (rule globMatch_star_skip)
    with True show ?thesis by simp
  next
    case False
    with Cons show ?thesis by simp
  qed
qed

lemma startsWith_append: "startsWith s p \<Longrightarrow> \<exists>rest. s = p @ rest"
  by (induction s p rule: startsWith.induct) auto

lemma globMatch_startsWith: "startsWith k p \<Longrightarrow> globMatch (p @ ''*'') k"
  using startsWith_append [of k p] globMatch_prefix by auto

lemma map_of_filter_keys:
  "map_of (filter (\<lambda>kv. fst kv \<notin> K) xs) k = (if k \<in> K then None else map_of xs k)"
  by (induction xs) auto

lemma redis_lookup_del:
  "redis_del ks r = Inr r' \<Longrightarrow>
   redis_lookup r' k = (if k \<in> set ks then None else redis_lookup r k)"
  by (auto simp: redis_del_def redis_lookup_def map_of_filter_keys split: if_splits)

lemma filter_not_in_filtered:
  "filter (\<lambda>kv. fst kv \<notin> set (filter P (map fst xs))) xs = filter (\<lambda>kv. \<not> P (fst kv)) xs"
  by (rule filter_cong [OF refl]) force

lemma clear_step:
  assumes "reachable (w_redis w)"
  shows "thenA (redisRead (redis_keys (''suspicious:'' @ tokenId @ '':*'')))
          (\<lambda>keys. thenA (if length keys > 0 then redisWrite (redis_del keys) else returnA ()) f) w
         = f () (w\<lparr>w_redis := clearViolations tokenId (w_redis w)\<rparr>)"
proof -
  let ?pat = "''suspicious:'' @ tokenId @ '':*''"
  let ?keys = "filter (globMatch ?pat) (map fst (entries (w_redis w)))"
  have del: "redis_del ?keys (w_redis w) = Inr (clearViolations tokenId (w_redis w))"
    using assms unfolding redis_del_def clearViolations_def filter_not_in_filtered by simp
  have same: "clearViolations tokenId (w_redis w) = w_redis w" if "?keys = []"
  proof -
    from that have "\<forall>kv \<in> set (entries (w_redis w)). \<not> globMatch ?pat (fst kv)"
      by (auto simp: filter_empty_conv)
    then have "filter (\<lambda>kv. \<not> globMatch ?pat (fst kv)) (entries (w_redis w)) = entries (w_redis w)"
      by (simp add: filter_id_conv)
    then show ?thesis by (simp add: clearViolations_def)
  qed
  show ?thesis
  proof (cases "?keys = []")
    case True
    with assms same show ?thesis
      by (simp add: thenA_def redisRead_def redis_keys_def returnA_def)
  next
    case False
    with assms del show ?thesis
      by (simp add: thenA_def redisRead_def redis_keys_def redisWrite_def)
  qed
qed

lemma clearViolations_lookup:
  "redis_lookup (clearViolations tokenId r) k =
     (if globMatch (''suspicious:'' @ tokenId @ '':*'') k then None else redis_lookup r k)"
proof -
  have "map_of (filter (\<lambda>kv. \<not> P (fst kv)) xs) k = (if P k then None else map_of xs k)"
    for P and xs :: "(string \<times> RedisEntry) list"
    by (induction xs) auto
  then show ?thesis by (simp add: clearViolations_def redis_lookup_def)
qed

lemma clearViolations_reachable: "reachable (clearViolations tokenId r) = reachable r"
  by (simp add: clearViolations_def)


lemma lpush_list:
  assumes "reachable r" and "listAt r k = Some l"
  shows "redis_lpush k j r = Inr (redis_put k \<lparr>re_value = RList (j # l), re_ttl = ttlAt r k\<rparr> r)"
proof -
  have eq: "e\<lparr>re_value := v\<rparr> = \<lparr>re_value = v, re_ttl = re_ttl e\<rparr>" for e :: RedisEntry and v
    by (cases e) simp
  from assms show ?thesis
    by (auto simp: redis_lpush_def listAt_def ttlAt_def eq split: option.splits RedisValue.splits)
qed

lemma thenA_dbWrite:
  "command (w_db w) = Inr d \<Longrightarrow> thenA (dbWrite command) f w = f () (w\<lparr>w_db := d\<rparr>)"
  by (simp add: thenA_def dbWrite_def)

lemma thenA_redisWrite:
  "command (w_redis w) = Inr r \<Longrightarrow> thenA (redisWrite command) f w = f () (w\<lparr>w_redis := r\<rparr>)"
  by (simp add: thenA_def redisWrite_def)

lemma thenA_redisRead:
  "command (w_redis w) = Inr x \<Longrightarrow> thenA (redisRead command) f w = f x w"
  by (simp add: thenA_def redisRead_def)

lemma thenA_returnA: "thenA (returnA x) f w = f x w"
  by (simp add: thenA_def returnA_def)

lemma updateFirst_find:
  "find P xs = Some old \<Longrightarrow> list_ex P xs"
  by (induction xs) (auto split: if_splits)

lemma rotateToken_run:
  assumes up: "reachable (w_redis w)"
    and row: "find (\<lambda>s. sk_id s = tokenId) (sharedKeys (w_db w)) = Some old"
    and queue: "listAt (w_redis w) ''notifications:queue'' = Some q"
    and new: "new = generateAccessToken ''feen'' random"
  shows "\<exists>w'. rotateToken lib tokenId userId reason random now w = (Inr new, w')
      \<and> sharedKeys (w_db w') =
          updateFirst (\<lambda>s. sk_id s = tokenId)
            (\<lambda>s. s\<lparr>sk_accessToken := new, sk_tokenHash := hash lib new, sk_updatedAt := now\<rparr>)
            (sharedKeys (w_db w))
      \<and> auditLogs (w_db w') =
          auditLogs (w_db w) @ [rotatedAuditLog tokenId userId reason (Some old) new]
      \<and> apiKeys (w_db w') = apiKeys (w_db w) \<and> usageLogs (w_db w') = usageLogs (w_db w)
      \<and> reachable (w_redis w')
      \<and> (\<forall>k. redis_lookup (w_redis w') k =
            (if k = ''notifications:queue''
             then Some \<lparr>re_value = RList (notificationJson userId tokenId reason now # q),
                        re_ttl = ttlAt (w_redis w) ''notifications:queue''\<rparr>
             else if globMatch (''suspicious:'' @ tokenId @ '':*'') k then None
             else redis_lookup (w_redis w) k))"
proof -
  let ?f = "\<lambda>s. s\<lparr>sk_accessToken := new, sk_tokenHash := hash lib new, sk_updatedAt := now\<rparr>"
  let ?d1 = "(w_db w)\<lparr>sharedKeys := updateFirst (\<lambda>s. sk_id s = tokenId) ?f (sharedKeys (w_db w))\<rparr>"
  let ?r1 = "clearViolations tokenId (w_redis w)"
  let ?d2 = "db_createAuditLog (rotatedAuditLog tokenId userId reason (Some old) new) ?d1"
  let ?n = "notificationJson userId tokenId reason now"
  let ?r2 = "redis_put ''notifications:queue''
               \<lparr>re_value = RList (?n # q), re_ttl = ttlAt ?r1 ''notifications:queue''\<rparr> ?r1"
  have nomatch: "\<not> globMatch (''suspicious:'' @ tokenId @ '':*'') ''notifications:queue''"
    by simp
  have q1: "listAt ?r1 ''notifications:queue'' = Some q"
    using queue nomatch by (simp add: listAt_def clearViolations_lookup)
  have t1: "ttlAt ?r1 ''notifications:queue'' = ttlAt (w_redis w) ''notifications:queue''"
    using nomatch by (simp add: ttlAt_def clearViolations_lookup)
  have upd: "db_updateSharedKey tokenId ?f (w_db w) = Inr ?d1"
    using updateFirst_find [OF row] by (simp add: db_updateSharedKey_def)
  have push: "redis_lpush ''notifications:queue'' ?n ?r1 = Inr ?r2"
    using up q1 by (intro lpush_list) (simp_all add: clearViolations_reachable)
  have run: "rotateToken lib tokenId userId reason random now w =
               (Inr new, \<lparr>w_db = ?d2, w_redis = ?r2\<rparr>)"
    unfolding rotateToken_def Let_def new [symmetric] row
    apply (subst thenA_dbWrite [where d = "?d1"])
     apply (rule upd)
    apply (subst clear_step)
     apply (simp add: up)
    apply (subst thenA_dbWrite [where d = "?d2"])
     apply simp
    apply (unfold queueRotationNotification_def)
    apply (subst thenA_redisWrite [where r = "?r2"])
     apply (simp add: push)
    apply (simp add: returnA_def)
    done
  show ?thesis
    apply (rule exI [of _ "\<lparr>w_db = ?d2, w_redis = ?r2\<rparr>"])
    apply (simp add: run db_createAuditLog_def redis_lookup_put clearViolations_lookup t1
             reachable_put clearViolations_reachable up)
    done
qed

lemma find_updateFirst_same:
  "find P xs = Some old \<Longrightarrow> P (f old) \<Longrightarrow> find P (updateFirst P f xs) = Some (f old)"
  by (induction xs) (auto split: if_splits)

lemma find_updateFirst_by_hash:
  assumes "distinct (map sk_id xs)"
    and "find (\<lambda>s. sk_id s = tokenId) xs = Some old"
    and "list_all (\<lambda>s. sk_id s = tokenId \<or> \<not> Q s) xs"
  shows "find Q (updateFirst (\<lambda>s. sk_id s = tokenId) f xs) = (if Q (f old) then Some (f old) else None)"
  using assms
proof (induction xs)
  case Nil
  then show ?case by simp
next
  case (Cons x xs)
  show ?case
  proof (cases "sk_id x = tokenId")
    case True
    with Cons.prems have old: "old = x" by simp
    from True Cons.prems have "\<forall>s \<in> set xs. sk_id s \<noteq> tokenId" by (auto simp: image_iff)
    with Cons.prems(3) have "\<forall>s \<in> set xs. \<not> Q s" by (auto simp: list_all_iff)
    then have "find Q xs = None" by (simp add: find_None_iff)
    with True old show ?thesis by simp
  next
    case False
    with Cons.prems have "\<not> Q x" by simp
    with False Cons show ?thesis by simp
  qed
qed

lemma World_updates: "w\<lparr>w_redis := r, w_db := d\<rparr> = \<lparr>w_db = d, w_redis = r\<rparr>"
  by (cases w) simp

lemma record_steps:
  assumes up: "reachable (w_redis w)"
    and events: "listAt (w_redis w) (suspiciousKey event) = Some l"
  shows "\<exists>r2. recordSuspiciousActivity lib event random now w =
      (let violations = int (length l) + 1;
           threshold = ROTATION_THRESHOLDS (ev_type event);
           w3 = \<lparr>w_db = db_createAuditLog (suspiciousAuditLog event violations threshold) (w_db w),
                 w_redis = r2\<rparr>
       in if violations \<ge> threshold
          then thenA (rotateToken lib (ev_tokenId event) (ev_userId event)
                        (activityValue (ev_type event)) random now)
                 (\<lambda>newAccessToken. returnA \<lparr>rotated = True, newToken = Some newAccessToken\<rparr>) w3
          else (Inr \<lparr>rotated = False, newToken = None\<rparr>, w3))
    \<and> reachable r2
    \<and> (\<forall>k. redis_lookup r2 k =
          (if k = suspiciousKey event
           then Some \<lparr>re_value = RList (eventJson event now # l), re_ttl = Some 3600\<rparr>
           else redis_lookup (w_redis w) k))"
proof -
  let ?k = "suspiciousKey event"
  let ?r1 = "redis_put ?k \<lparr>re_value = RList (eventJson event now # l), re_ttl = ttlAt (w_redis w) ?k\<rparr> (w_redis w)"
  let ?r2 = "redis_put ?k \<lparr>re_value = RList (eventJson event now # l), re_ttl = Some 3600\<rparr> ?r1"
  have push: "redis_lpush ?k (eventJson event now) (w_redis w) = Inr ?r1"
    using up events by (rule lpush_list)
  have expire: "redis_expire ?k VIOLATION_WINDOW ?r1 = Inr ?r2"
    using up by (simp add: redis_expire_def VIOLATION_WINDOW_def)
  have llen: "redis_llen ?k ?r2 = Inr (int (length l) + 1)"
    using up by (simp add: redis_llen_def)
  have run: "recordSuspiciousActivity lib event random now w =
      (let violations = int (length l) + 1;
           threshold = ROTATION_THRESHOLDS (ev_type event);
           w3 = \<lparr>w_db = db_createAuditLog (suspiciousAuditLog event violations threshold) (w_db w),
                 w_redis = ?r2\<rparr>
       in if violations \<ge> threshold
          then thenA (rotateToken lib (ev_tokenId event) (ev_userId event)
                        (activityValue (ev_type event)) random now)
                 (\<lambda>newAccessToken. returnA \<lparr>rotated = True, newToken = Some newAccessToken\<rparr>) w3
          else (Inr \<lparr>rotated = False, newToken = None\<rparr>, w3))"
    unfolding recordSuspiciousActivity_def Let_def
    apply (subst thenA_redisWrite [where r = "?r1"])
     apply (rule push)
    apply (subst thenA_redisWrite [where r = "?r2"])
     apply (simp add: expire)
    apply (subst thenA_redisRead [where x = "int (length l) + 1"])
     apply (simp add: llen)
    apply (subst thenA_dbWrite [where d = "db_createAuditLog (suspiciousAuditLog event (int (length l) + 1) (ROTATION_THRESHOLDS (ev_type event))) (w_db w)"])
     apply simp
    apply (simp add: returnA_def World_updates)
    done
  show ?thesis
    apply (rule exI [of _ "?r2"])
    apply (simp only: run)
    apply (simp add: up)
    done
qed



lemma sample_new_token:
  "generateAccessToken ''feen'' ''012345678901234567890123'' = ''feen_MDEyMzQ1Njc4OTAxMjM0NTY3ODkwMTIz''"
  by code_simp


section \<open>Proxy: policy failures\<close>

lemma checkRateLimit_frame:
  "k \<noteq> windowKey key windowSeconds now \<Longrightarrow>
   redis_lookup (snd (checkRateLimit key limit windowSeconds now r)) k = redis_lookup r k"
  by (auto simp: checkRateLimit_def redis_incr_def redis_expire_def Let_def
        split: option.splits RedisValue.splits sum.splits if_splits prod.splits)

lemma windowKey_not_suspicious:
  "startsWith k ''suspicious:'' \<Longrightarrow> k \<noteq> windowKey key windowSeconds now"
  by (cases k) (auto simp: windowKey_def)

lemma recordLatency_frame:
  "recordLatency provider latencyMs r = Inr r' \<Longrightarrow> startsWith k ''suspicious:'' \<Longrightarrow>
   redis_lookup r' k = redis_lookup r k"
  by (cases k) (auto simp: recordLatency_def redis_set_ex_def split: if_splits)

lemma finishProxy_frame:
  "auditLogs (w_db (pr_world (finishProxy env request sharedKey clientIP rl loop w))) = auditLogs (w_db w)
   \<and> (startsWith k ''suspicious:'' \<longrightarrow>
        redis_lookup (w_redis (pr_world (finishProxy env request sharedKey clientIP rl loop w))) k
          = redis_lookup (w_redis w) k)"
  by (auto simp: finishProxy_def recordUsage_def recordLatency_frame
        split: prod.splits option.splits sum.splits)

lemma checkRateLimit_keeps_suspicious:
  "checkRateLimit key limit windowSeconds now r = (res, r') \<Longrightarrow> startsWith k ''suspicious:'' \<Longrightarrow>
   redis_lookup r' k = redis_lookup r k"
proof -
  assume run: "checkRateLimit key limit windowSeconds now r = (res, r')"
    and sw: "startsWith k ''suspicious:''"
  from sw have "k \<noteq> windowKey key windowSeconds now" by (rule windowKey_not_suspicious)
  then have "redis_lookup (snd (checkRateLimit key limit windowSeconds now r)) k = redis_lookup r k"
    by (rule checkRateLimit_frame)
  with run show ?thesis by simp
qed

lemma handleProxy_frame:
  "auditLogs (w_db (pr_world (handleProxy env request w))) = auditLogs (w_db w)
   \<and> (startsWith k ''suspicious:'' \<longrightarrow>
        redis_lookup (w_redis (pr_world (handleProxy env request w))) k = redis_lookup (w_redis w) k)"
  unfolding handleProxy_def Let_def
  by (auto split: sum.splits prod.splits option.splits list.splits
        simp: checkRateLimit_keeps_suspicious
          finishProxy_frame [THEN conjunct1] finishProxy_frame [THEN conjunct2, rule_format])

lemma checkPolicy_failures:
  "checkPolicy sharedKey now forwardedFor = Inl response \<Longrightarrow>
     response = jsonError ''Access token has expired'' 401
   \<or> response = jsonError ''Access token usage limit exceeded'' 429
   \<or> response = jsonError ''IP address not allowed'' 403"
  by (auto simp: checkPolicy_def Let_def split: if_splits)

text \<open>
  C2 (amended).  \<open>handleProxy\<close> checks expiry, usage cap and IP list (it has no scope
  check and no signature check).  On each of these failures it returns the error
  response (401, 429, 403) and leaves both stores as they are; on a rate-limit refusal
  it returns 429 and leaves the database as it is.  On no path at all does it record a
  suspicious-activity event: no key \<open>suspicious:...\<close> of the fast store changes and the
  audit log stays as it was.
\<close>

theorem handleProxy_records_no_suspicious_activity:
  "auditLogs (w_db (pr_world (handleProxy env request w))) = auditLogs (w_db w)
   \<and> (\<forall>k. startsWith k ''suspicious:'' \<longrightarrow>
        redis_lookup (w_redis (pr_world (handleProxy env request w))) k = redis_lookup (w_redis w) k)
   \<and> (\<forall>sharedKey response.
        authenticate (pe_lib env) (w_db w) (rq_authorization request) = Inr sharedKey
        \<and> checkPolicy sharedKey (pe_now env) (rq_forwardedFor request) = Inl response
        \<longrightarrow> handleProxy env request w = \<lparr>pr_response = response, pr_calls = [], pr_world = w\<rparr>
          \<and> (response = jsonError ''Access token has expired'' 401
             \<or> response = jsonError ''Access token usage limit exceeded'' 429
             \<or> response = jsonError ''IP address not allowed'' 403))
   \<and> (\<forall>sharedKey clientIP.
        authenticate (pe_lib env) (w_db w) (rq_authorization request) = Inr sharedKey
        \<and> checkPolicy sharedKey (pe_now env) (rq_forwardedFor request) = Inr clientIP
        \<and> \<not> rl_allowed (fst (checkRateLimit (sharedRateLimitKey (sk_id sharedKey))
                  (sk_rateLimit sharedKey) 60 (pe_now env div 1000) (w_redis w)))
        \<longrightarrow> cr_status (pr_response (handleProxy env request w)) = 429
          \<and> w_db (pr_world (handleProxy env request w)) = w_db w)"
proof -
  have p: "handleProxy env request w = \<lparr>pr_response = response, pr_calls = [], pr_world = w\<rparr>
          \<and> (response = jsonError ''Access token has expired'' 401
             \<or> response = jsonError ''Access token usage limit exceeded'' 429
             \<or> response = jsonError ''IP address not allowed'' 403)"
    if "authenticate (pe_lib env) (w_db w) (rq_authorization request) = Inr sharedKey"
      and "checkPolicy sharedKey (pe_now env) (rq_forwardedFor request) = Inl response"
    for sharedKey response
    using that checkPolicy_failures [OF that(2)] by (simp add: handleProxy_def)
  have r: "cr_status (pr_response (handleProxy env request w)) = 429
          \<and> w_db (pr_world (handleProxy env request w)) = w_db w"
    if "authenticate (pe_lib env) (w_db w) (rq_authorization request) = Inr sharedKey"
      and "checkPolicy sharedKey (pe_now env) (rq_forwardedFor request) = Inr clientIP"
      and "\<not> rl_allowed (fst (checkRateLimit (sharedRateLimitKey (sk_id sharedKey))
                  (sk_rateLimit sharedKey) 60 (pe_now env div 1000) (w_redis w)))"
    for sharedKey clientIP
  proof -
    obtain res r1 where eq: "checkRateLimit (sharedRateLimitKey (sk_id sharedKey))
        (sk_rateLimit sharedKey) 60 (pe_now env div 1000) (w_redis w) = (res, r1)"
      by (cases "checkRateLimit (sharedRateLimitKey (sk_id sharedKey))
        (sk_rateLimit sharedKey) 60 (pe_now env div 1000) (w_redis w)")
    with that(3) have "\<not> rl_allowed res" by simp
    with that(1,2) eq show ?thesis
      by (simp add: handleProxy_def Let_def rateLimitedResponse_def)
  qed
  from handleProxy_frame p r show ?thesis by blast
qed

lemma sample_authenticate:
  "sk_tokenHash (change sampleSharedKey) = ''sha256:feen_old'' \<Longrightarrow>
   sk_isActive (change sampleSharedKey) \<Longrightarrow>
   authenticate standInLib (w_db (sampleWorldWith change)) (Some ''Bearer feen_old'') =
     Inr (change sampleSharedKey)"
  by (simp add: authenticate_def findSharedKeyByToken_def hash_def standInLib_def sampleWorldWith_def)

text \<open>
  The claim as written fails on an expired token: the caller gets the 401 and nothing is
  recorded anywhere.
\<close>

theorem handleProxy_expired_counterexample:
  "pr_response (handleProxy sampleEnv sampleRequest (sampleWorldWith (\<lambda>s. s\<lparr>sk_expiresAt := Some 1000\<rparr>)))
     = jsonError ''Access token has expired'' 401
   \<and> pr_world (handleProxy sampleEnv sampleRequest (sampleWorldWith (\<lambda>s. s\<lparr>sk_expiresAt := Some 1000\<rparr>)))
     = sampleWorldWith (\<lambda>s. s\<lparr>sk_expiresAt := Some 1000\<rparr>)
   \<and> entries (w_redis (sampleWorldWith (\<lambda>s. s\<lparr>sk_expiresAt := Some 1000\<rparr>))) = []
   \<and> auditLogs (w_db (sampleWorldWith (\<lambda>s. s\<lparr>sk_expiresAt := Some 1000\<rparr>))) = []"
  by (simp add: handleProxy_def sampleEnv_def sampleRequest_def sample_authenticate
        sampleSharedKey_def checkPolicy_def)
    (simp add: sampleWorldWith_def)

theorem handleProxy_records_no_suspicious_activity_witness:
  "handleProxy sampleEnv sampleRequest (sampleWorldWith (\<lambda>s. s\<lparr>sk_allowedIPs := [''10.0.0.1'']\<rparr>))
     = \<lparr>pr_response = jsonError ''IP address not allowed'' 403, pr_calls = [],
        pr_world = sampleWorldWith (\<lambda>s. s\<lparr>sk_allowedIPs := [''10.0.0.1'']\<rparr>)\<rparr>"
proof -
  let ?w = "sampleWorldWith (\<lambda>s. s\<lparr>sk_allowedIPs := [''10.0.0.1'']\<rparr>)"
  let ?sk = "sampleSharedKey\<lparr>sk_allowedIPs := [''10.0.0.1'']\<rparr>"
  have a: "authenticate (pe_lib sampleEnv) (w_db ?w) (rq_authorization sampleRequest) = Inr ?sk"
    by (simp add: sampleEnv_def sampleRequest_def sample_authenticate sampleSharedKey_def)
  have p: "checkPolicy ?sk (pe_now sampleEnv) (rq_forwardedFor sampleRequest)
             = Inl (jsonError ''IP address not allowed'' 403)"
    by (simp add: checkPolicy_def sampleSharedKey_def sampleEnv_def sampleRequest_def clientIPOf_def)
  from handleProxy_records_no_suspicious_activity [of sampleEnv sampleRequest ?w] a p
  show ?thesis by blast
qed

section \<open>Proxy: the IP allow-list\<close>

text \<open>
  C3.  The allow-list is compared entry by entry with the caller's address as text
  (\<open>allowedIPs.includes(clientIP)\<close>).  A token that allows \<open>192.168.1.0/24\<close> therefore
  refuses the caller \<open>192.168.1.7\<close> with a 403; only a caller whose address is the text
  \<open>192.168.1.0/24\<close> itself passes.  A request without \<open>X-Forwarded-For\<close> is the caller
  \<open>unknown\<close>, which passes only a list holding that word.
\<close>

theorem checkPolicy_cidr_entry_rejects_member:
  "checkPolicy (sampleSharedKey\<lparr>sk_allowedIPs := [''192.168.1.0/24'']\<rparr>) 1700000000001
       (Some ''192.168.1.7'')
     = Inl (jsonError ''IP address not allowed'' 403)
   \<and> pr_response (handleProxy sampleEnv sampleRequest
        (sampleWorldWith (\<lambda>s. s\<lparr>sk_allowedIPs := [''192.168.1.0/24'']\<rparr>)))
     = jsonError ''IP address not allowed'' 403
   \<and> checkPolicy (sampleSharedKey\<lparr>sk_allowedIPs := [''192.168.1.0/24'']\<rparr>) 1700000000001
       (Some ''192.168.1.0/24'')
     = Inr ''192.168.1.0/24''
   \<and> checkPolicy (sampleSharedKey\<lparr>sk_allowedIPs := [''unknown'']\<rparr>) 1700000000001 None
     = Inr ''unknown''
   \<and> checkPolicy (sampleSharedKey\<lparr>sk_allowedIPs := [''192.168.1.7'']\<rparr>) 1700000000001 None
     = Inl (jsonError ''IP address not allowed'' 403)"
  by (simp add: handleProxy_def sampleEnv_def sampleRequest_def sample_authenticate
        sampleSharedKey_def checkPolicy_def clientIPOf_def)

section \<open>Proxy: the fallback loop\<close>

lemma tryProviders_Skipped:
  "attempt env request k = Skipped \<Longrightarrow>
   tryProviders env request (k # keys) st =
     tryProviders env request keys
       (st\<lparr>ls_selectedApiKey := k, ls_finalProvider := ak_provider k\<rparr>)"
  by (auto simp: attempt_def Let_def split: option.splits sum.splits FetchResult.splits)

lemma tryProviders_Crashed:
  "attempt env request k = Crashed e \<Longrightarrow>
   tryProviders env request (k # keys) st =
     (Some e, st\<lparr>ls_selectedApiKey := k, ls_finalProvider := ak_provider k\<rparr>)"
  by (auto simp: attempt_def Let_def split: option.splits sum.splits FetchResult.splits)

lemma tryProviders_Threw:
  "attempt env request k = Threw \<Longrightarrow>
   \<exists>call. tryProviders env request (k # keys) st =
     tryProviders env request keys
       (st\<lparr>ls_selectedApiKey := k, ls_finalProvider := ak_provider k,
            ls_calls := ls_calls st @ [call]\<rparr>)"
  by (auto simp: attempt_def Let_def split: option.splits sum.splits FetchResult.splits)

lemma tryProviders_Answered:
  "attempt env request k = Answered response \<Longrightarrow>
   \<exists>call. tryProviders env request (k # keys) st =
     (if responseOk response
      then (None, st\<lparr>ls_selectedApiKey := k, ls_finalProvider := ak_provider k,
                      ls_calls := ls_calls st @ [call], ls_proxyResponse := Some response\<rparr>)
      else tryProviders env request keys
             (st\<lparr>ls_selectedApiKey := k, ls_finalProvider := ak_provider k,
                  ls_calls := ls_calls st @ [call], ls_proxyResponse := Some response\<rparr>))"
  by (auto simp: attempt_def Let_def split: option.splits sum.splits FetchResult.splits)

lemma tryProviders_all_failed:
  "\<forall>k\<in>set keys. failed (attempt env request k) \<Longrightarrow>
   fst (tryProviders env request keys st) = None
   \<and> ls_proxyResponse (snd (tryProviders env request keys st)) =
       (case answers (map (attempt env request) keys) of
          [] \<Rightarrow> ls_proxyResponse st
        | r # rs \<Rightarrow> Some (last (r # rs)))
   \<and> length (ls_calls (snd (tryProviders env request keys st))) =
       length (ls_calls st) + length (filter (\<lambda>k. attempt env request k \<noteq> Skipped) keys)"
proof (induction keys arbitrary: st)
  case Nil
  show ?case by simp
next
  case (Cons k keys)
  from Cons.prems have rest: "\<forall>k\<in>set keys. failed (attempt env request k)" by simp
  from Cons.prems have k: "failed (attempt env request k)" by simp
  note IH = Cons.IH [OF rest]
  show ?case
  proof (cases "attempt env request k")
    case Skipped
    show ?thesis
      unfolding tryProviders_Skipped [OF Skipped] using IH Skipped by (simp split: list.splits)
  next
    case (Crashed e)
    with k show ?thesis by simp
  next
    case Threw
    from tryProviders_Threw [OF Threw] obtain call where
      "tryProviders env request (k # keys) st =
         tryProviders env request keys
           (st\<lparr>ls_selectedApiKey := k, ls_finalProvider := ak_provider k,
                ls_calls := ls_calls st @ [call]\<rparr>)" by blast
    then show ?thesis using IH Threw by (simp split: list.splits)
  next
    case (Answered response)
    with k have bad: "\<not> responseOk response" by simp
    from tryProviders_Answered [OF Answered] bad obtain call where
      "tryProviders env request (k # keys) st =
         tryProviders env request keys
           (st\<lparr>ls_selectedApiKey := k, ls_finalProvider := ak_provider k,
                ls_calls := ls_calls st @ [call], ls_proxyResponse := Some response\<rparr>)"
      by auto
    then show ?thesis using IH Answered by (simp split: list.splits)
  qed
qed

lemma tryProviders_failed_prefix:
  "\<forall>k'\<in>set before. failed (attempt env request k') \<Longrightarrow>
   \<exists>st'. tryProviders env request (before @ rest) st = tryProviders env request rest st'
     \<and> length (ls_calls st') =
         length (ls_calls st) + length (filter (\<lambda>k. attempt env request k \<noteq> Skipped) before)"
proof (induction before arbitrary: st)
  case Nil
  show ?case by (rule exI [of _ st]) simp
next
  case (Cons k before)
  from Cons.prems have rest: "\<forall>k\<in>set before. failed (attempt env request k)" by simp
  from Cons.prems have k: "failed (attempt env request k)" by simp
  note IH = Cons.IH [OF rest]
  show ?case
  proof (cases "attempt env request k")
    case Skipped
    show ?thesis
      using IH [of "st\<lparr>ls_selectedApiKey := k, ls_finalProvider := ak_provider k\<rparr>"] Skipped
      by (simp add: tryProviders_Skipped [OF Skipped] del: tryProviders.simps)
  next
    case (Crashed e)
    with k show ?thesis by simp
  next
    case Threw
    from tryProviders_Threw [OF Threw] obtain call where
      eq: "tryProviders env request (k # before @ rest) st =
         tryProviders env request (before @ rest)
           (st\<lparr>ls_selectedApiKey := k, ls_finalProvider := ak_provider k,
                ls_calls := ls_calls st @ [call]\<rparr>)" by blast
    show ?thesis
      using IH [of "st\<lparr>ls_selectedApiKey := k, ls_finalProvider := ak_provider k,
                ls_calls := ls_calls st @ [call]\<rparr>"] Threw
      by (simp add: eq del: tryProviders.simps)
  next
    case (Answered response)
    with k have bad: "\<not> responseOk response" by simp
    from tryProviders_Answered [OF Answered] bad obtain call where
      eq: "tryProviders env request (k # before @ rest) st =
         tryProviders env request (before @ rest)
           (st\<lparr>ls_selectedApiKey := k, ls_finalProvider := ak_provider k,
                ls_calls := ls_calls st @ [call], ls_proxyResponse := Some response\<rparr>)"
      by auto
    show ?thesis
      using IH [of "st\<lparr>ls_selectedApiKey := k, ls_finalProvider := ak_provider k,
                ls_calls := ls_calls st @ [call], ls_proxyResponse := Some response\<rparr>"] Answered
      by (simp add: eq del: tryProviders.simps)
  qed
qed

lemma tryProviders_first_ok:
  assumes "\<forall>k'\<in>set before. failed (attempt env request k')"
      and a: "attempt env request k = Answered response" and ok: "responseOk response"
  shows "fst (tryProviders env request (before @ k # after) st) = None
   \<and> ls_proxyResponse (snd (tryProviders env request (before @ k # after) st)) = Some response
   \<and> ls_selectedApiKey (snd (tryProviders env request (before @ k # after) st)) = k
   \<and> ls_finalProvider (snd (tryProviders env request (before @ k # after) st)) = ak_provider k
   \<and> length (ls_calls (snd (tryProviders env request (before @ k # after) st))) =
       length (ls_calls st) + length (filter (\<lambda>k. attempt env request k \<noteq> Skipped) before) + 1"
proof -
  from tryProviders_failed_prefix [OF assms(1)] obtain st' where
    eq: "tryProviders env request (before @ k # after) st = tryProviders env request (k # after) st'"
    and len: "length (ls_calls st') =
         length (ls_calls st) + length (filter (\<lambda>k. attempt env request k \<noteq> Skipped) before)"
    by blast
  from tryProviders_Answered [OF a] ok obtain call where
    "tryProviders env request (k # after) st' =
       (None, st'\<lparr>ls_selectedApiKey := k, ls_finalProvider := ak_provider k,
                      ls_calls := ls_calls st' @ [call], ls_proxyResponse := Some response\<rparr>)"
    by auto
  with eq len show ?thesis by simp
qed

lemma tryProviders_crash:
  assumes "\<forall>k'\<in>set before. failed (attempt env request k')"
      and a: "attempt env request k = Crashed e"
  shows "fst (tryProviders env request (before @ k # after) st) = Some e"
proof -
  from tryProviders_failed_prefix [OF assms(1)] obtain st' where
    eq: "tryProviders env request (before @ k # after) st = tryProviders env request (k # after) st'"
    by blast
  show ?thesis unfolding eq tryProviders_Crashed [OF a] by simp
qed


lemma handleProxy_reaches_loop:
  assumes "authenticate (pe_lib env) (w_db w) (rq_authorization request) = Inr sharedKey"
      and "checkPolicy sharedKey (pe_now env) (rq_forwardedFor request) = Inr clientIP"
      and "checkRateLimit (sharedRateLimitKey (sk_id sharedKey)) (sk_rateLimit sharedKey) 60
             (pe_now env div 1000) (w_redis w) = (rateLimitResult, r1)"
      and "rl_allowed rateLimitResult"
      and "find (\<lambda>k. ak_id k = sk_apiKeyId sharedKey) (apiKeys (w_db w)) = Some linked"
      and "sortedApiKeys (rq_model request) sharedKey linked
             (availableApiKeys (w_db w) sharedKey linked) r1 = Inr (first # rest)"
  shows "handleProxy env request w =
           finishProxy env request sharedKey clientIP rateLimitResult
             (tryProviders env request (first # rest)
                \<lparr>ls_proxyResponse = None, ls_selectedApiKey = first,
                 ls_finalProvider = ak_provider first, ls_calls = []\<rparr>)
             (w\<lparr>w_redis := r1\<rparr>)"
  unfolding handleProxy_def using assms by (simp del: tryProviders.simps)

lemma finishProxy_ok:
  assumes "fst loop = None" and "ls_proxyResponse (snd loop) = Some response"
      and "responseOk response" and "reachable (w_redis w)"
  shows "cr_status (pr_response (finishProxy env request sharedKey clientIP rl loop w)) = ur_status response
       \<and> cr_body (pr_response (finishProxy env request sharedKey clientIP rl loop w)) = StreamBody (ur_body response)
       \<and> pr_calls (finishProxy env request sharedKey clientIP rl loop w) = ls_calls (snd loop)"
  using assms
  by (cases loop) (simp add: finishProxy_def recordLatency_def redis_set_ex_def forwardResponse_def)

lemma finishProxy_not_ok:
  assumes "fst loop = None" and "ls_proxyResponse (snd loop) = Some response"
      and "\<not> responseOk response"
  shows "cr_status (pr_response (finishProxy env request sharedKey clientIP rl loop w)) = ur_status response
       \<and> cr_body (pr_response (finishProxy env request sharedKey clientIP rl loop w)) = StreamBody (ur_body response)
       \<and> pr_calls (finishProxy env request sharedKey clientIP rl loop w) = ls_calls (snd loop)"
  using assms
  by (cases loop) (simp add: finishProxy_def forwardResponse_def)

lemma finishProxy_none:
  assumes "fst loop = None" and "ls_proxyResponse (snd loop) = None"
  shows "pr_response (finishProxy env request sharedKey clientIP rl loop w)
           = jsonError ''All available providers failed'' 502
       \<and> pr_calls (finishProxy env request sharedKey clientIP rl loop w) = ls_calls (snd loop)"
  using assms
  by (cases loop) (simp add: finishProxy_def)

lemma finishProxy_crash:
  assumes "fst loop = Some e"
  shows "pr_response (finishProxy env request sharedKey clientIP rl loop w) = internalError"
  using assms
  by (cases loop) (simp add: finishProxy_def)

lemma answers_failed_not_ok:
  "\<forall>a\<in>set as. failed a \<Longrightarrow> \<forall>r\<in>set (answers as). \<not> responseOk r"
  by (induction as rule: answers.induct) auto


lemma sample_decrypt:
  "decrypt standInLib standInKey ''QUFBQUFBQUFBQUFBQUFBQVRUVFRUVFRUVFRUVFRUVFRoZWxsbw=='' = Inr ''hello''"
  using decrypt_delegates [OF standIn_key, of "base64_encode (''AAAAAAAAAAAAAAAA'' @ ''TTTTTTTTTTTTTTTT'' @ ''hello'')"]
  unfolding base64_roundtrip by (simp add: blob_hello standIn_open)

lemma checkRateLimit_empty_store:
  "0 < limit \<Longrightarrow>
   rl_allowed (fst (checkRateLimit key limit windowSeconds now \<lparr>reachable = True, entries = []\<rparr>))
   \<and> reachable (snd (checkRateLimit key limit windowSeconds now \<lparr>reachable = True, entries = []\<rparr>))"
proof -
  have empty: "redis_lookup \<lparr>reachable = True, entries = []\<rparr> k = None" for k
    by (simp add: redis_lookup_def)
  assume "0 < limit"
  then show ?thesis
    by (simp add: checkRateLimit_def redis_incr_def redis_expire_def empty Let_def)
qed

lemma sample_attempt_openai:
  "attempt sampleEnv sampleRequest sampleApiKey =
     Answered \<lparr>ur_status = 404, ur_statusText = [], ur_headers = [], ur_body = ''{}''\<rparr>"
  by (simp add: attempt_def sampleEnv_def sampleApiKey_def sample_decrypt sampleFetch_def
        upstreamRequest_def sampleAnswer_def sampleRequest_def)

lemma sample_attempt_together:
  "attempt sampleEnv sampleRequest sampleTogetherKey =
     Answered \<lparr>ur_status = 200, ur_statusText = [], ur_headers = [], ur_body = ''{}''\<rparr>"
  by (simp add: attempt_def sampleEnv_def sampleTogetherKey_def sample_decrypt sampleFetch_def
        upstreamRequest_def sampleAnswer_def sampleRequest_def)

lemma sample_attempt_down:
  "attempt sampleEnvDown sampleRequest sampleApiKey =
     Answered \<lparr>ur_status = 503, ur_statusText = [], ur_headers = [], ur_body = ''{}''\<rparr>"
  by (simp add: attempt_def sampleEnvDown_def sampleEnv_def sampleApiKey_def sample_decrypt
        upstreamRequest_def sampleAnswer_def sampleRequest_def)

lemma sample_sorted_two:
  "sortedApiKeys (rq_model sampleRequest) sampleSharedKey sampleApiKey
     (availableApiKeys (w_db sampleWorldTwoKeys) sampleSharedKey sampleApiKey) r
   = Inr [sampleApiKey, sampleTogetherKey]"
  by (simp add: sortedApiKeys_def bestProviderFor_def sampleRequest_def availableApiKeys_def
        sampleWorldTwoKeys_def sampleSharedKey_def sampleApiKey_def sampleTogetherKey_def
        sortBy_def compareApiKeys_def)

lemma sample_sorted_one:
  "sortedApiKeys (rq_model sampleRequest) sampleSharedKey sampleApiKey
     (availableApiKeys (w_db sampleWorld) sampleSharedKey sampleApiKey) r
   = Inr [sampleApiKey]"
  by (simp add: sortedApiKeys_def bestProviderFor_def sampleRequest_def availableApiKeys_def
        sampleWorld_def sampleSharedKey_def sampleApiKey_def
        sortBy_def compareApiKeys_def)


lemma sample_attempt_down_together:
  "attempt sampleEnvDown sampleRequest sampleTogetherKey =
     Answered \<lparr>ur_status = 503, ur_statusText = [], ur_headers = [], ur_body = ''{}''\<rparr>"
  by (simp add: attempt_def sampleEnvDown_def sampleEnv_def sampleTogetherKey_def sample_decrypt
        upstreamRequest_def sampleAnswer_def sampleRequest_def)

lemma sample_authenticate_plain:
  "authenticate standInLib (w_db sampleWorld) (Some ''Bearer feen_old'') = Inr sampleSharedKey"
  "authenticate standInLib (w_db sampleWorldTwoKeys) (Some ''Bearer feen_old'') = Inr sampleSharedKey"
  by (simp_all add: authenticate_def findSharedKeyByToken_def hash_def standInLib_def
        sampleWorld_def sampleWorldTwoKeys_def sampleSharedKey_def Let_def)

lemma sample_policy:
  "checkPolicy sampleSharedKey 1700000000001 (Some ''192.168.1.7'') = Inr ''192.168.1.7''"
  by (simp add: checkPolicy_def sampleSharedKey_def clientIPOf_def)

lemma sample_linked:
  "find (\<lambda>k. ak_id k = sk_apiKeyId sampleSharedKey) (apiKeys (w_db sampleWorld)) = Some sampleApiKey"
  "find (\<lambda>k. ak_id k = sk_apiKeyId sampleSharedKey) (apiKeys (w_db sampleWorldTwoKeys)) = Some sampleApiKey"
  by (simp_all add: sampleWorld_def sampleWorldTwoKeys_def sampleSharedKey_def sampleApiKey_def
        sampleTogetherKey_def)

lemma sample_limiter:
  "rl_allowed (fst (checkRateLimit key (sk_rateLimit sampleSharedKey) 60 now (w_redis sampleWorld)))"
  "reachable (snd (checkRateLimit key (sk_rateLimit sampleSharedKey) 60 now (w_redis sampleWorld)))"
  "w_redis sampleWorldTwoKeys = w_redis sampleWorld"
  using checkRateLimit_empty_store [of 100 key 60 now]
  by (simp_all add: sampleWorld_def sampleWorldTwoKeys_def sampleSharedKey_def)

lemma sample_env:
  "pe_lib sampleEnv = standInLib" "pe_now sampleEnv = 1700000000001"
  "pe_lib sampleEnvDown = standInLib" "pe_now sampleEnvDown = 1700000000001"
  "rq_authorization sampleRequest = Some ''Bearer feen_old''"
  "rq_forwardedFor sampleRequest = Some ''192.168.1.7''"
  by (simp_all add: sampleEnv_def sampleEnvDown_def sampleRequest_def)

lemma sample_reaches_loop:
  assumes env: "pe_lib env = standInLib" "pe_now env = 1700000000001"
      and w: "authenticate standInLib (w_db w) (Some ''Bearer feen_old'') = Inr sampleSharedKey"
             "find (\<lambda>k. ak_id k = sk_apiKeyId sampleSharedKey) (apiKeys (w_db w)) = Some sampleApiKey"
             "w_redis w = w_redis sampleWorld"
      and sorted: "\<And>r. sortedApiKeys (rq_model sampleRequest) sampleSharedKey sampleApiKey
             (availableApiKeys (w_db w) sampleSharedKey sampleApiKey) r = Inr (first # rest)"
  shows "\<exists>rateLimitResult r1. reachable r1 \<and> handleProxy env sampleRequest w =
           finishProxy env sampleRequest sampleSharedKey ''192.168.1.7'' rateLimitResult
             (tryProviders env sampleRequest (first # rest)
                \<lparr>ls_proxyResponse = None, ls_selectedApiKey = first,
                 ls_finalProvider = ak_provider first, ls_calls = []\<rparr>)
             (w\<lparr>w_redis := r1\<rparr>)"
proof -
  let ?c = "checkRateLimit (sharedRateLimitKey (sk_id sampleSharedKey)) (sk_rateLimit sampleSharedKey) 60
             (pe_now env div 1000) (w_redis w)"
  have a: "authenticate (pe_lib env) (w_db w) (rq_authorization sampleRequest) = Inr sampleSharedKey"
    using env w by (simp add: sample_env)
  have p: "checkPolicy sampleSharedKey (pe_now env) (rq_forwardedFor sampleRequest) = Inr ''192.168.1.7''"
    using env by (simp add: sample_env sample_policy)
  have c: "?c = (fst ?c, snd ?c)" by simp
  have ok: "rl_allowed (fst ?c)" "reachable (snd ?c)"
    unfolding w(3) by (rule sample_limiter)+
  from handleProxy_reaches_loop [OF a p c ok(1) w(2) sorted] ok(2)
  show ?thesis by blast
qed



section \<open>Router: no preferred provider\<close>

lemma insertBy_skip:
  "\<forall>y\<in>set ys. \<not> compare x y < 0 \<Longrightarrow> insertBy compare x (ys @ zs) = ys @ insertBy compare x zs"
  by (induction ys) auto

lemma insertBy_front:
  "zs = [] \<or> compare x (hd zs) < 0 \<Longrightarrow> insertBy compare x zs = x # zs"
  by (cases zs) auto

lemma insertBy_end:
  "\<forall>y\<in>set ys. \<not> compare x y < 0 \<Longrightarrow> insertBy compare x ys = ys @ [x]"
  using insertBy_skip [of ys compare x "[]"] by simp

lemma sortBy_compareApiKeys_invariant:
  assumes b0: "\<forall>k\<in>set b0. ak_provider k = p"
      and b1: "\<forall>k\<in>set b1. ak_provider k \<noteq> p \<and> ak_id k = tok"
      and b2: "\<forall>k\<in>set b2. ak_provider k \<noteq> p \<and> ak_id k \<noteq> tok"
  shows "foldl (\<lambda>sorted x. insertBy (compareApiKeys (Some p) tok) x sorted)
           (rev b0 @ rev b1 @ b2) xs =
         rev (b0 @ filter (\<lambda>k. ak_provider k = p) xs)
         @ rev (b1 @ filter (\<lambda>k. ak_provider k \<noteq> p \<and> ak_id k = tok) xs)
         @ (b2 @ filter (\<lambda>k. ak_provider k \<noteq> p \<and> ak_id k \<noteq> tok) xs)"
  using assms
proof (induction xs arbitrary: b0 b1 b2)
  case Nil
  show ?case by simp
next
  case (Cons x xs)
  let ?cmp = "compareApiKeys (Some p) tok"
  consider (best) "ak_provider x = p"
    | (token) "ak_provider x \<noteq> p" "ak_id x = tok"
    | (other) "ak_provider x \<noteq> p" "ak_id x \<noteq> tok" by blast
  then show ?case
  proof cases
    case best
    have "insertBy ?cmp x (rev b0 @ rev b1 @ b2) = x # rev b0 @ rev b1 @ b2"
      by (rule insertBy_front) (simp add: compareApiKeys_def best)
    then have step: "insertBy ?cmp x (rev b0 @ rev b1 @ b2) = rev (b0 @ [x]) @ rev b1 @ b2"
      by simp
    have "\<forall>k\<in>set (b0 @ [x]). ak_provider k = p" using Cons.prems(1) best by simp
    from Cons.IH [OF this Cons.prems(2) Cons.prems(3)] show ?thesis
      unfolding foldl_Cons step using best by simp
  next
    case token
    have skip: "\<forall>y\<in>set (rev b0). \<not> ?cmp x y < 0"
      using Cons.prems(1) token by (simp add: compareApiKeys_def)
    have front: "insertBy ?cmp x (rev b1 @ b2) = x # rev b1 @ b2"
    proof (rule insertBy_front)
      show "rev b1 @ b2 = [] \<or> ?cmp x (hd (rev b1 @ b2)) < 0"
      proof (cases "rev b1 @ b2")
        case Nil
        then show ?thesis by simp
      next
        case (Cons y ys)
        then have "y \<in> set b1 \<or> y \<in> set b2"
          by (metis Un_iff list.set_intros(1) set_append set_rev)
        then have "ak_provider y \<noteq> p" using Cons.prems(2) Cons.prems(3) by blast
        then show ?thesis using Cons token by (simp add: compareApiKeys_def)
      qed
    qed
    have step: "insertBy ?cmp x (rev b0 @ rev b1 @ b2) = rev b0 @ rev (b1 @ [x]) @ b2"
      unfolding insertBy_skip [where ys = "rev b0" and x = x and compare = "?cmp", OF skip] front
      by simp
    have "\<forall>k\<in>set (b1 @ [x]). ak_provider k \<noteq> p \<and> ak_id k = tok"
      using Cons.prems(2) token by simp
    from Cons.IH [OF Cons.prems(1) this Cons.prems(3)] show ?thesis
      unfolding foldl_Cons step using token by simp
  next
    case other
    have skip: "\<forall>y\<in>set (rev b0 @ rev b1 @ b2). \<not> ?cmp x y < 0"
      using Cons.prems other by (auto simp: compareApiKeys_def)
    have step: "insertBy ?cmp x (rev b0 @ rev b1 @ b2) = rev b0 @ rev b1 @ (b2 @ [x])"
      using insertBy_end [where ys = "rev b0 @ rev b1 @ b2" and x = x and compare = "?cmp", OF skip]
      by simp
    have "\<forall>k\<in>set (b2 @ [x]). ak_provider k \<noteq> p \<and> ak_id k \<noteq> tok"
      using Cons.prems(3) other by simp
    from Cons.IH [OF Cons.prems(1) Cons.prems(2) this] show ?thesis
      unfolding foldl_Cons step using other by simp
  qed
qed

lemma sortBy_compareApiKeys:
  "sortBy (compareApiKeys (Some p) tok) xs =
     rev (filter (\<lambda>k. ak_provider k = p) xs)
     @ rev (filter (\<lambda>k. ak_provider k \<noteq> p \<and> ak_id k = tok) xs)
     @ filter (\<lambda>k. ak_provider k \<noteq> p \<and> ak_id k \<noteq> tok) xs"
  using sortBy_compareApiKeys_invariant [of "[]" p "[]" tok "[]" xs]
  by (simp add: sortBy_def)

lemma getFastestProvider_no_candidate:
  assumes "modelEntry model \<noteq> Inherited"
      and "\<forall>p\<in>set availableProviders.
             p \<notin> set (case modelEntry model of Listed providers \<Rightarrow> providers | _ \<Rightarrow> [])"
  shows "getFastestProvider model availableProviders r =
           Inr (case availableProviders of [] \<Rightarrow> None | p # ps \<Rightarrow> Some p)"
proof -
  have "filter (\<lambda>p. p \<in> set (case modelEntry model of Listed providers \<Rightarrow> providers | _ \<Rightarrow> []))
          availableProviders = []"
    using assms(2) by (simp add: filter_empty_conv)
  then show ?thesis using assms(1)
    by (cases "modelEntry model") (simp_all add: getFastestProvider_def Let_def split: list.splits)
qed


lemma sample_modelEntry:
  "modelEntry ''claude-3-opus-20240229'' = Listed [ANTHROPIC]"
  "modelEntry ''my-model'' = Unlisted"
  by (simp_all add: modelEntry_def MODEL_PROVIDER_MAP_def objectPrototypeKeys_def)

lemma sample_available:
  "availableApiKeys (w_db sampleWorldTwoKeys) sampleSharedKey sampleApiKey
     = [sampleTogetherKey, sampleApiKey]"
  by (simp add: availableApiKeys_def sampleWorldTwoKeys_def sampleSharedKey_def sampleApiKey_def
        sampleTogetherKey_def)



end
